theory Spec2Isabelle
  imports Main "HOL-Library.Word"
begin

section \<open>The monitoring client of CCTV-SOS-AUTOMATION\<close>

text \<open>
  The program is the React component \<^verbatim>\<open>App\<close> of \<^verbatim>\<open>src/frontend-layer/src/App.jsx\<close>:
  a WebSocket client that receives binary frames (a 4-byte big-endian length, a JSON
  document of that length, a JPEG image), keeps a list of alerts, paints the images on a
  canvas and sends a notice when the operator resolves an alert.

  The component's handlers are embedded as functions on an explicit state. Each
  \<^verbatim>\<open>await\<close> of the message handler is a point where the handler is suspended and
  other events run, so the handler is split there into its stages, and the events of the
  browser (open, close, message, a promise settling, an animation frame, a click, the
  unmount) drive the state one at a time, as the event loop does.
\<close>

subsection \<open>Values of the language\<close>

type_synonym byte = "8 word"

text \<open>
  The values \<^verbatim>\<open>JSON.parse\<close> can return, and \<^verbatim>\<open>undefined\<close>, which reading an
  absent property gives. The members of an object are kept in the order of the text.
  Numbers are IEEE doubles in the browser; the handler never computes with one (it turns
  them into text and tests them for truth), so their type is left open as \<open>'n\<close> and what
  the browser does with one is part of the platform below. Strings are the sequences of
  bytes of their UTF-8 form.
\<close>

datatype 'n jsval =
    Undefined
  | Null
  | Bool bool
  | Num 'n
  | Str string
  | Arr "'n jsval list"
  | Obj "(string \<times> 'n jsval) list"

text \<open>The exceptions the handlers can end with.\<close>

datatype error = RangeError | SyntaxError | TypeError | InvalidStateError

text \<open>
  What the component calls and does not define: the built-ins of the browser. The
  handlers take them as a parameter.
  \<^item> \<open>TextDecoder_decode\<close>: \<^verbatim>\<open>new TextDecoder().decode(buffer)\<close>, which never throws;
  \<^item> \<open>JSON_parse\<close>: \<^verbatim>\<open>JSON.parse(text)\<close>, \<open>None\<close> when it throws its SyntaxError;
  \<^item> \<open>Number_toString\<close>: the text of a number in a template literal;
  \<^item> \<open>Number_truthy\<close>: whether a number counts as true in a condition;
  \<^item> \<open>Date_toLocaleTimeString\<close>: \<^verbatim>\<open>toLocaleTimeString('en-US', { hour12: true })\<close> of
    the date made from a value, which is \<^verbatim>\<open>Invalid Date\<close> for a value that is no date.
    It is asked only for values from which a date can be made (see \<open>new_Date\<close> below).
\<close>

record 'n platform =
  TextDecoder_decode :: "byte list \<Rightarrow> string"
  JSON_parse :: "string \<Rightarrow> 'n jsval option"
  Number_toString :: "'n \<Rightarrow> string"
  Number_truthy :: "'n \<Rightarrow> bool"
  Date_toLocaleTimeString :: "'n jsval \<Rightarrow> string"

text \<open>
  \<^verbatim>\<open>v.k\<close> for the names the handler reads (\<^verbatim>\<open>alerts\<close>, \<^verbatim>\<open>emergency_detected\<close>,
  \<^verbatim>\<open>detections\<close>, \<^verbatim>\<open>frame_id\<close>, \<^verbatim>\<open>unix_time\<close>, \<^verbatim>\<open>timestamp\<close>, \<^verbatim>\<open>class_name\<close>): none of
  them is a built-in property of arrays, strings, numbers, booleans or
  \<^verbatim>\<open>Object.prototype\<close>, so only an object's own members answer. Of two members with the
  same key the later one wins, as in \<^verbatim>\<open>JSON.parse\<close>. Reading a property of
  \<^verbatim>\<open>null\<close> or \<^verbatim>\<open>undefined\<close> throws a TypeError.
\<close>

fun property :: "'n jsval \<Rightarrow> string \<Rightarrow> 'n jsval" where
  "property (Obj ms) k = (case map_of (rev ms) k of None \<Rightarrow> Undefined | Some v \<Rightarrow> v)"
| "property v k = Undefined"

fun nullish :: "'n jsval \<Rightarrow> bool" where
  "nullish Undefined = True"
| "nullish Null = True"
| "nullish v = False"

definition getprop :: "'n jsval \<Rightarrow> string \<Rightarrow> error + 'n jsval" where
  "getprop v k = (if nullish v then Inl TypeError else Inr (property v k))"

text \<open>\<^verbatim>\<open>v?.k\<close>: \<^verbatim>\<open>undefined\<close> when \<open>v\<close> is \<^verbatim>\<open>null\<close> or \<^verbatim>\<open>undefined\<close>.\<close>

definition optprop :: "'n jsval \<Rightarrow> string \<Rightarrow> 'n jsval" where
  "optprop v k = (if nullish v then Undefined else property v k)"

text \<open>The truth of a value in a condition (\<^verbatim>\<open>ToBoolean\<close>).\<close>

fun truthy :: "'n platform \<Rightarrow> 'n jsval \<Rightarrow> bool" where
  "truthy P Undefined = False"
| "truthy P Null = False"
| "truthy P (Bool b) = b"
| "truthy P (Num n) = Number_truthy P n"
| "truthy P (Str s) = (s \<noteq> [])"
| "truthy P (Arr xs) = True"
| "truthy P (Obj ms) = True"

text \<open>
  The text of a value in a template literal (\<^verbatim>\<open>ToString\<close>). An array is its elements
  joined with commas, \<^verbatim>\<open>null\<close> and \<^verbatim>\<open>undefined\<close> elements being empty. An object is
  \<^verbatim>\<open>[object Object]\<close>, unless it has a member of its own named \<^verbatim>\<open>toString\<close>: a value
  from JSON is never a function, so the conversion finds no method that returns a
  primitive and throws a TypeError.
\<close>

fun ToString :: "'n platform \<Rightarrow> 'n jsval \<Rightarrow> error + string"
  and join :: "'n platform \<Rightarrow> 'n jsval list \<Rightarrow> error + string" where
  "ToString P Undefined = Inr ''undefined''"
| "ToString P Null = Inr ''null''"
| "ToString P (Bool b) = Inr (if b then ''true'' else ''false'')"
| "ToString P (Num n) = Inr (Number_toString P n)"
| "ToString P (Str s) = Inr s"
| "ToString P (Arr xs) = join P xs"
| "ToString P (Obj ms) =
     (if ''toString'' \<in> set (map fst ms) then Inl TypeError else Inr ''[object Object]'')"
| "join P [] = Inr []"
| "join P (x # xs) =
     (case (if nullish x then Inr [] else ToString P x) of
        Inl e \<Rightarrow> Inl e
      | Inr s \<Rightarrow>
          (if xs = [] then Inr s
           else case join P xs of Inl e \<Rightarrow> Inl e | Inr t \<Rightarrow> Inr (s @ '','' @ t)))"

subsection \<open>The alert collection\<close>

text \<open>An element of the \<^verbatim>\<open>alerts\<close> state (lines 50 to 57). Its \<^verbatim>\<open>id\<close> is \<open>alert_id\<close> here.\<close>

record alert =
  alert_id :: string
  class_name :: string
  severity :: string
  location :: string
  time :: string
  desc :: string

definition emergency_classes :: "string list" where
  "emergency_classes = [''Fire'', ''Fall'', ''Accident'', ''Violence'', ''Unconsciousness'']"

text \<open>
  \<^verbatim>\<open>new Date(v)\<close>. A string, number, boolean, \<^verbatim>\<open>null\<close> or \<^verbatim>\<open>undefined\<close> makes a date,
  if only an invalid one. An object or an array is first turned into a primitive, by its
  \<^verbatim>\<open>valueOf\<close> and then its \<^verbatim>\<open>toString\<close>; the inherited \<^verbatim>\<open>valueOf\<close> returns the object
  itself, so the primitive is the text of \<open>ToString\<close>, and the constructor throws a
  TypeError exactly where \<open>ToString\<close> does. The date is kept as the value it is made of.
\<close>

definition new_Date :: "'n platform \<Rightarrow> 'n jsval \<Rightarrow> error + 'n jsval" where
  "new_Date P v = (case ToString P v of Inl e \<Rightarrow> Inl e | Inr t \<Rightarrow> Inr v)"

text \<open>
  The object built at lines 50 to 57. Of its members only \<^verbatim>\<open>time\<close> can throw, at the
  \<^verbatim>\<open>new Date(payload.timestamp)\<close> of line 55.
\<close>

definition new_alert :: "'n platform \<Rightarrow> 'n jsval \<Rightarrow> string \<Rightarrow> string \<Rightarrow> error + alert" where
  "new_alert P payload className eventId =
     (case new_Date P (property payload ''timestamp'') of
        Inl e \<Rightarrow> Inl e
      | Inr date \<Rightarrow>
          Inr \<lparr>alert_id = eventId,
               class_name = className,
               severity = ''HIGH'',
               location = ''ROAD 1'',
               time = Date_toLocaleTimeString P date,
               desc = className @ '' emergency triggered.''\<rparr>)"

text \<open>
  The updater given to \<^verbatim>\<open>setAlerts\<close> at lines 46 to 58: \<open>prev\<close> is the collection as
  the updates before it have left it. It returns before line 50 when the class is
  there; otherwise it returns the longer collection, or throws what line 55 throws.
\<close>

definition add_alert ::
  "'n platform \<Rightarrow> 'n jsval \<Rightarrow> string \<Rightarrow> string \<Rightarrow> alert list \<Rightarrow> error + alert list" where
  "add_alert P payload className eventId prev =
     (if list_ex (\<lambda>a. class_name a = className) prev then Inr prev
      else (case new_alert P payload className eventId of
              Inl e \<Rightarrow> Inl e
            | Inr a \<Rightarrow> Inr (a # prev)))"

text \<open>
  The template literal of line 44, \<^verbatim>\<open>evt_${payload.frame_id}_${payload.unix_time}\<close>: the
  two values are turned into text from left to right. The payload is an object wherever
  the handler reads \<^verbatim>\<open>frame_id\<close>, \<^verbatim>\<open>unix_time\<close>, \<^verbatim>\<open>timestamp\<close> or \<^verbatim>\<open>detections\<close> (its
  \<^verbatim>\<open>alerts.emergency_detected\<close> was true), so these reads cannot throw.
\<close>

definition eventId_of :: "'n platform \<Rightarrow> 'n jsval \<Rightarrow> error + string" where
  "eventId_of P payload =
     (case ToString P (property payload ''frame_id'') of
        Inl e \<Rightarrow> Inl e
      | Inr f \<Rightarrow>
          (case ToString P (property payload ''unix_time'') of
             Inl e \<Rightarrow> Inl e
           | Inr u \<Rightarrow> Inr (''evt_'' @ f @ ''_'' @ u)))"

subsection \<open>The frame\<close>

text \<open>
  \<^verbatim>\<open>dataView.getUint32(off, false)\<close>: the big-endian number in four bytes, a RangeError
  when the buffer ends before them.
\<close>

definition getUint32 :: "byte list \<Rightarrow> nat \<Rightarrow> error + nat" where
  "getUint32 buf off =
     (if length buf < off + 4 then Inl RangeError
      else Inr (unat (buf ! off) * 2 ^ 24 + unat (buf ! (off + 1)) * 2 ^ 16
                + unat (buf ! (off + 2)) * 2 ^ 8 + unat (buf ! (off + 3))))"

text \<open>
  \<^verbatim>\<open>arrayBuffer.slice(begin, end)\<close> and \<^verbatim>\<open>arrayBuffer.slice(begin)\<close>: both bounds are
  clamped to the length of the buffer, and a range that ends before it begins is empty.
  No exception.
\<close>

definition slice :: "byte list \<Rightarrow> nat \<Rightarrow> nat \<Rightarrow> byte list" where
  "slice buf begin end =
     (let first = min begin (length buf); final = min end (length buf)
      in take (final - first) (drop first buf))"

definition slice_from :: "byte list \<Rightarrow> nat \<Rightarrow> byte list" where
  "slice_from buf begin = slice buf begin (length buf)"

text \<open>
  Lines 31, 34, 35 and 64: the header, the metadata and the image of one frame. The
  component has no check of the header against the length of the message. Line 64 is
  taken here before the alert logic that precedes it in the handler: the slice is pure
  and cannot throw, so the order makes no difference.
\<close>

definition demux :: "'n platform \<Rightarrow> byte list \<Rightarrow> error + ('n jsval \<times> byte list)" where
  "demux P buf =
     (case getUint32 buf 0 of
        Inl e \<Rightarrow> Inl e
      | Inr jsonLen \<Rightarrow>
          (case JSON_parse P (TextDecoder_decode P (slice buf 4 (4 + jsonLen))) of
             None \<Rightarrow> Inl SyntaxError
           | Some payload \<Rightarrow> Inr (payload, slice_from buf (4 + jsonLen))))"

subsection \<open>The state of the component\<close>

text \<open>The socket in \<^verbatim>\<open>wsRef.current\<close>: its \<^verbatim>\<open>readyState\<close> and the frames given to \<^verbatim>\<open>send\<close>.\<close>

record webSocket =
  readyState :: nat
  sent :: "string list"

definition CONNECTING :: nat where "CONNECTING = 0"
definition OPEN :: nat where "OPEN = 1"
definition CLOSING :: nat where "CLOSING = 2"
definition CLOSED :: nat where "CLOSED = 3"

record canvas =
  canvas_width :: nat
  canvas_height :: nat

record imageBitmap =
  width :: nat
  height :: nat

text \<open>
  \<^item> \<open>alerts\<close>, \<open>systemStatus\<close>: the two pieces of React state the claims are about
    (\<^verbatim>\<open>currentTime\<close> and its timer touch nothing else and are left out);
  \<^item> \<open>wsRef\<close>, \<open>canvasRef\<close>: the two refs; \<open>mounted\<close>: whether the component is mounted
    (React drops the state updates of an unmounted component);
  \<^item> \<open>reading\<close>: the handlers suspended at \<^verbatim>\<open>await event.data.arrayBuffer()\<close>, each
    with the bytes of its message;
  \<^item> \<open>decoding\<close>: the handlers suspended at \<^verbatim>\<open>await createImageBitmap(imageBlob)\<close>,
    each with the bytes of its image;
  \<^item> \<open>frames\<close>: the callbacks given to \<^verbatim>\<open>requestAnimationFrame\<close> and not yet run, each
    with its bitmap;
  \<^item> \<open>painted\<close>: the bitmaps drawn on the canvas, oldest first;
  \<^item> \<open>unhandled\<close>: the exceptions the message handler ended with (the rejections of its
    promise, which nothing catches).
\<close>

record state =
  alerts :: "alert list"
  systemStatus :: string
  wsRef :: "webSocket option"
  canvasRef :: "canvas option"
  mounted :: bool
  reading :: "byte list list"
  decoding :: "byte list list"
  frames :: "imageBitmap list"
  painted :: "imageBitmap list"
  unhandled :: "error list"

text \<open>
  The unmount: the cleanup of lines 80 to 82 (\<^verbatim>\<open>close\<close> puts an open socket in the
  closing state), and React empties the ref of the canvas.
\<close>

definition unmount :: "state \<Rightarrow> state" where
  "unmount s =
     s\<lparr>wsRef := map_option (\<lambda>ws. if readyState ws = OPEN then ws\<lparr>readyState := CLOSING\<rparr> else ws)
                  (wsRef s),
       canvasRef := None, mounted := False\<rparr>"

text \<open>
  The setters of the two pieces of state. React runs the updaters given to \<^verbatim>\<open>setAlerts\<close>
  in the order of the calls, each on the result of the one before, which is what applying
  each at its call gives. An updater that throws makes the render fail; the component has
  no error boundary, so React then removes it, which is the unmount: the updates given
  after that are dropped, and the handler that gave them runs on.
\<close>

definition setAlerts :: "(alert list \<Rightarrow> error + alert list) \<Rightarrow> state \<Rightarrow> state" where
  "setAlerts f s =
     (if mounted s then
        (case f (alerts s) of
           Inl e \<Rightarrow> unmount s
         | Inr alerts' \<Rightarrow> s\<lparr>alerts := alerts'\<rparr>)
      else s)"

definition setSystemStatus :: "string \<Rightarrow> state \<Rightarrow> state" where
  "setSystemStatus v s = (if mounted s then s\<lparr>systemStatus := v\<rparr> else s)"

definition reject :: "error \<Rightarrow> state \<Rightarrow> state" where
  "reject e s = s\<lparr>unhandled := unhandled s @ [e]\<rparr>"

text \<open>The state once the effects of lines 12 to 83 have run: a socket that is connecting.\<close>

definition init :: state where
  "init = \<lparr>alerts = [], systemStatus = ''Connecting...'',
           wsRef = Some \<lparr>readyState = CONNECTING, sent = []\<rparr>,
           canvasRef = Some \<lparr>canvas_width = 300, canvas_height = 150\<rparr>,
           mounted = True, reading = [], decoding = [], frames = [], painted = [],
           unhandled = []\<rparr>"

subsection \<open>The alert logic\<close>

text \<open>
  The callback of \<^verbatim>\<open>forEach\<close> (lines 39 to 60) on one detection. \<^verbatim>\<open>includes\<close> compares
  with strict equality, so only a string can be one of the five classes. The result is
  the state after the call of \<^verbatim>\<open>setAlerts\<close>, if the callback makes one, or the exception
  the callback throws.
\<close>

definition on_detection ::
  "'n platform \<Rightarrow> 'n jsval \<Rightarrow> 'n jsval \<Rightarrow> state \<Rightarrow> error + state" where
  "on_detection P payload det s =
     (case getprop det ''class_name'' of
        Inl e \<Rightarrow> Inl e
      | Inr (Str className) \<Rightarrow>
          (if className \<in> set emergency_classes then
             (case eventId_of P payload of
                Inl e \<Rightarrow> Inl e
              | Inr eid \<Rightarrow> Inr (setAlerts (add_alert P payload className eid) s))
           else Inr s)
      | Inr _ \<Rightarrow> Inr s)"

text \<open>
  \<^verbatim>\<open>forEach\<close> over the detections, in order. An exception in a callback ends the loop;
  what the callbacks before it did stays done, so the result is the state reached
  together with the exception, if any.
\<close>

fun forEach :: "'n platform \<Rightarrow> 'n jsval \<Rightarrow> 'n jsval list \<Rightarrow> state \<Rightarrow> state \<times> error option" where
  "forEach P payload [] s = (s, None)"
| "forEach P payload (det # dets) s =
     (case on_detection P payload det s of
        Inl e \<Rightarrow> (s, Some e)
      | Inr s' \<Rightarrow> forEach P payload dets s')"

text \<open>
  Lines 38 to 61. \<^verbatim>\<open>payload.alerts\<close> throws when the payload is \<^verbatim>\<open>null\<close>;
  \<^verbatim>\<open>payload.detections.forEach\<close> throws a TypeError unless the detections are an array
  (on \<^verbatim>\<open>undefined\<close> and \<^verbatim>\<open>null\<close> there is no property to read, on any other value
  \<^verbatim>\<open>forEach\<close> is not a function).
\<close>

definition ingest :: "'n platform \<Rightarrow> 'n jsval \<Rightarrow> state \<Rightarrow> state \<times> error option" where
  "ingest P payload s =
     (case getprop payload ''alerts'' of
        Inl e \<Rightarrow> (s, Some e)
      | Inr al \<Rightarrow>
          (if truthy P (optprop al ''emergency_detected'') then
             (case property payload ''detections'' of
                Arr dets \<Rightarrow> forEach P payload dets s
              | _ \<Rightarrow> (s, Some TypeError))
           else (s, None)))"

subsection \<open>The handlers\<close>

text \<open>Lines 22 and 23.\<close>

definition onopen :: "state \<Rightarrow> state" where
  "onopen s = setSystemStatus ''Monitoring Active'' s"

definition onclose :: "state \<Rightarrow> state" where
  "onclose s = setSystemStatus ''Disconnected'' s"

text \<open>
  \<^verbatim>\<open>event.data\<close>: a Blob for a binary message (the socket's \<^verbatim>\<open>binaryType\<close> is left at
  its default), a string for a text message.
\<close>

datatype data = Blob "byte list" | Text string

text \<open>Lines 25 to 27, up to the first \<^verbatim>\<open>await\<close>.\<close>

fun onmessage :: "data \<Rightarrow> state \<Rightarrow> state" where
  "onmessage (Blob bytes) s = s\<lparr>reading := reading s @ [bytes]\<rparr>"
| "onmessage (Text t) s = s"

text \<open>
  Lines 28 to 65, from the buffer to the second \<^verbatim>\<open>await\<close>. An exception ends the
  handler; what the alert logic did before it stays done.
\<close>

definition on_buffer :: "'n platform \<Rightarrow> byte list \<Rightarrow> state \<Rightarrow> state" where
  "on_buffer P buf s =
     (case demux P buf of
        Inl e \<Rightarrow> reject e s
      | Inr (payload, imageBytes) \<Rightarrow>
          (case ingest P payload s of
             (s', Some e) \<Rightarrow> reject e s'
           | (s', None) \<Rightarrow> s'\<lparr>decoding := decoding s' @ [imageBytes]\<rparr>))"

text \<open>
  Lines 65 to 67, once \<^verbatim>\<open>createImageBitmap\<close> has settled: with a bitmap the paint is
  given to \<^verbatim>\<open>requestAnimationFrame\<close>, with a rejection the handler ends.
\<close>

fun on_bitmap :: "imageBitmap option \<Rightarrow> state \<Rightarrow> state" where
  "on_bitmap (Some imageBitmap) s = s\<lparr>frames := frames s @ [imageBitmap]\<rparr>"
| "on_bitmap None s = reject InvalidStateError s"

text \<open>
  The callback of lines 67 to 76: without a canvas it returns; with one it sizes the
  canvas to the bitmap and draws it (the canvas is only ever asked for its 2d context,
  which it then always has).
\<close>

definition paint :: "imageBitmap \<Rightarrow> state \<Rightarrow> state" where
  "paint imageBitmap s =
     (case canvasRef s of
        None \<Rightarrow> s
      | Some c \<Rightarrow>
          s\<lparr>canvasRef := Some (c\<lparr>canvas_width := width imageBitmap,
                                 canvas_height := height imageBitmap\<rparr>),
            painted := painted s @ [imageBitmap]\<rparr>)"

text \<open>An animation frame runs the callbacks requested so far, in the order of the requests.\<close>

definition animation_frame :: "state \<Rightarrow> state" where
  "animation_frame s = fold paint (frames s) (s\<lparr>frames := []\<rparr>)"

text \<open>
  \<^verbatim>\<open>JSON.stringify\<close> of a string: the quotes, and inside them an escape for the quote,
  the backslash and the control characters.
\<close>

definition hex_digit :: "nat \<Rightarrow> char" where
  "hex_digit n = ''0123456789abcdef'' ! (n mod 16)"

definition quote_char :: "char \<Rightarrow> string" where
  "quote_char c =
     (if c = CHR 0x22 then [CHR 0x5C, CHR 0x22]
      else if c = CHR 0x5C then [CHR 0x5C, CHR 0x5C]
      else if c = CHR 0x08 then [CHR 0x5C, CHR ''b'']
      else if c = CHR 0x0C then [CHR 0x5C, CHR ''f'']
      else if c = CHR 0x0A then [CHR 0x5C, CHR ''n'']
      else if c = CHR 0x0D then [CHR 0x5C, CHR ''r'']
      else if c = CHR 0x09 then [CHR 0x5C, CHR ''t'']
      else if (of_char c :: nat) < 32 then
        [CHR 0x5C, CHR ''u'', CHR ''0'', CHR ''0'',
         hex_digit (of_char c div 16), hex_digit (of_char c)]
      else [c])"

definition quote :: "string \<Rightarrow> string" where
  "quote s = [CHR 0x22] @ concat (map quote_char s) @ [CHR 0x22]"

text \<open>\<^verbatim>\<open>JSON.stringify({ action: "resolve", event_id: eventId })\<close>.\<close>

definition resolve_frame :: "string \<Rightarrow> string" where
  \<open>resolve_frame eventId = ''{"action":"resolve","event_id":'' @ quote eventId @ ''}''\<close>

text \<open>
  Lines 85 to 90. \<^verbatim>\<open>send\<close> on an open socket queues the frame and does not throw, so
  nothing stands between it and the update of the alerts; the updater is a filter, which
  does not throw either.
\<close>

definition send :: "string \<Rightarrow> webSocket \<Rightarrow> webSocket" where
  "send frame ws = ws\<lparr>sent := sent ws @ [frame]\<rparr>"

definition handleResolve :: "string \<Rightarrow> state \<Rightarrow> state" where
  "handleResolve eventId s =
     setAlerts (\<lambda>prev. Inr (filter (\<lambda>alert. alert_id alert \<noteq> eventId) prev))
       (case wsRef s of
          None \<Rightarrow> s
        | Some ws \<Rightarrow>
            (if readyState ws = OPEN then s\<lparr>wsRef := Some (send (resolve_frame eventId) ws)\<rparr>
             else s))"

subsection \<open>The events\<close>

text \<open>
  What the browser does to the component, one event at a time:
  \<^item> the socket opens or closes (the browser sets \<^verbatim>\<open>readyState\<close>, then calls the handler);
  \<^item> a message arrives;
  \<^item> the \<^verbatim>\<open>arrayBuffer()\<close> of the \<open>i\<close>-th waiting handler is ready (nothing happens when
    fewer handlers are waiting, here and in the next event);
  \<^item> the \<^verbatim>\<open>createImageBitmap\<close> of the \<open>i\<close>-th waiting handler settles, with a bitmap or
    with a rejection (the browser decides which: the image's bytes are opaque here);
  \<^item> an animation frame;
  \<^item> the operator clicks one of the two buttons of an alert card;
  \<^item> the component is unmounted.
\<close>

datatype event =
    Open
  | Close
  | Message data
  | BufferRead nat
  | ImageDecoded nat "imageBitmap option"
  | AnimationFrame
  | Click string
  | Unmount

definition take_out :: "nat \<Rightarrow> 'a list \<Rightarrow> 'a list" where
  "take_out i xs = take i xs @ drop (Suc i) xs"

definition set_readyState :: "nat \<Rightarrow> state \<Rightarrow> state" where
  "set_readyState n s = s\<lparr>wsRef := map_option (\<lambda>ws. ws\<lparr>readyState := n\<rparr>) (wsRef s)\<rparr>"

fun step :: "'n platform \<Rightarrow> event \<Rightarrow> state \<Rightarrow> state" where
  "step P Open s = onopen (set_readyState OPEN s)"
| "step P Close s = onclose (set_readyState CLOSED s)"
| "step P (Message d) s = onmessage d s"
| "step P (BufferRead i) s =
     (if i < length (reading s)
      then on_buffer P (reading s ! i) (s\<lparr>reading := take_out i (reading s)\<rparr>)
      else s)"
| "step P (ImageDecoded i r) s =
     (if i < length (decoding s)
      then on_bitmap r (s\<lparr>decoding := take_out i (decoding s)\<rparr>)
      else s)"
| "step P AnimationFrame s = animation_frame s"
| "step P (Click eventId) s = handleResolve eventId s"
| "step P Unmount s = unmount s"

definition run :: "'n platform \<Rightarrow> event list \<Rightarrow> state \<Rightarrow> state" where
  "run P es s = fold (step P) es s"

subsection \<open>An instance of the platform\<close>

text \<open>
  The theorems below hold for every platform. To run the handlers on the bytes of a
  concrete frame, here is one platform: it reads each byte as one character and parses
  the text by the grammar of JSON (ECMA-404). It agrees with the browser on texts in
  ASCII: a text is rejected exactly when \<^verbatim>\<open>JSON.parse\<close> throws, and the value has the
  same shape. A number is kept as its literal, which for an integer literal below
  \<open>2\<^sup>5\<^sup>3\<close> is also its text in a template literal (but for \<^verbatim>\<open>-0\<close>), and it counts
  as true when a digit before the exponent is not zero. The hour of the day depends on
  the time zone of the browser and is not computed: the frames of the examples carry no
  \<^verbatim>\<open>timestamp\<close>, for which the browser too answers \<^verbatim>\<open>Invalid Date\<close>.
\<close>

datatype token =
    LBrace | RBrace | LBracket | RBracket | Colon | Comma
  | TString string | TNumber string | TTrue | TFalse | TNull

text \<open>Where the lexer is inside a number literal, and inside the text as a whole.\<close>

datatype numpos = NMinus | NZero | NInt | NDot | NFrac | NExp | NExpSign | NExpDigits

datatype lexmode =
    Idle
  | InString string
  | InEscape string
  | InUnicode string "nat list"
  | InNumber numpos string
  | InWord string

definition is_digit :: "char \<Rightarrow> bool" where
  "is_digit c = (c \<in> set ''0123456789'')"

definition is_letter :: "char \<Rightarrow> bool" where
  "is_letter c = (c \<in> set ''abcdefghijklmnopqrstuvwxyz'')"

definition hex_value :: "char \<Rightarrow> nat option" where
  "hex_value c =
     (if c \<in> set ''0123456789'' then Some (of_char c - 48)
      else if c \<in> set ''abcdef'' then Some (of_char c - 87)
      else if c \<in> set ''ABCDEF'' then Some (of_char c - 55)
      else None)"

text \<open>The bytes of the character an escape \<^verbatim>\<open>\uXXXX\<close> names.\<close>

definition utf8 :: "nat \<Rightarrow> string" where
  "utf8 n =
     (if n < 128 then [char_of n]
      else if n < 2048 then [char_of (192 + n div 64), char_of (128 + n mod 64)]
      else [char_of (224 + n div 4096), char_of (128 + (n div 64) mod 64),
            char_of (128 + n mod 64)])"

definition lex_idle :: "char \<Rightarrow> (token list \<times> lexmode) option" where
  "lex_idle c =
     (if c \<in> set [CHR '' '', CHR 0x09, CHR 0x0A, CHR 0x0D] then Some ([], Idle)
      else if c = CHR ''{'' then Some ([LBrace], Idle)
      else if c = CHR ''}'' then Some ([RBrace], Idle)
      else if c = CHR ''['' then Some ([LBracket], Idle)
      else if c = CHR '']'' then Some ([RBracket], Idle)
      else if c = CHR '':'' then Some ([Colon], Idle)
      else if c = CHR '','' then Some ([Comma], Idle)
      else if c = CHR 0x22 then Some ([], InString [])
      else if c = CHR ''-'' then Some ([], InNumber NMinus [c])
      else if c = CHR ''0'' then Some ([], InNumber NZero [c])
      else if is_digit c then Some ([], InNumber NInt [c])
      else if is_letter c then Some ([], InWord [c])
      else None)"

definition keyword :: "string \<Rightarrow> token option" where
  "keyword w =
     (if w = ''true'' then Some TTrue
      else if w = ''false'' then Some TFalse
      else if w = ''null'' then Some TNull
      else None)"

fun number_step :: "numpos \<Rightarrow> char \<Rightarrow> numpos option" where
  "number_step NMinus c =
     (if c = CHR ''0'' then Some NZero else if is_digit c then Some NInt else None)"
| "number_step NZero c =
     (if c = CHR ''.'' then Some NDot else if c \<in> set ''eE'' then Some NExp else None)"
| "number_step NInt c =
     (if is_digit c then Some NInt else if c = CHR ''.'' then Some NDot
      else if c \<in> set ''eE'' then Some NExp else None)"
| "number_step NDot c = (if is_digit c then Some NFrac else None)"
| "number_step NFrac c =
     (if is_digit c then Some NFrac else if c \<in> set ''eE'' then Some NExp else None)"
| "number_step NExp c =
     (if c \<in> set ''+-'' then Some NExpSign else if is_digit c then Some NExpDigits else None)"
| "number_step NExpSign c = (if is_digit c then Some NExpDigits else None)"
| "number_step NExpDigits c = (if is_digit c then Some NExpDigits else None)"

definition number_done :: "numpos \<Rightarrow> bool" where
  "number_done p = (p \<in> set [NZero, NInt, NFrac, NExpDigits])"

text \<open>A number or a word ends at the first character that is not part of it.\<close>

definition emit :: "token \<Rightarrow> char \<Rightarrow> (token list \<times> lexmode) option" where
  "emit t c = (case lex_idle c of None \<Rightarrow> None | Some (ts, m) \<Rightarrow> Some (t # ts, m))"

fun lex_char :: "lexmode \<Rightarrow> char \<Rightarrow> (token list \<times> lexmode) option" where
  "lex_char Idle c = lex_idle c"
| "lex_char (InString s) c =
     (if c = CHR 0x22 then Some ([TString s], Idle)
      else if c = CHR 0x5C then Some ([], InEscape s)
      else if (of_char c :: nat) < 32 then None
      else Some ([], InString (s @ [c])))"
| "lex_char (InEscape s) c =
     (if c \<in> set [CHR 0x22, CHR 0x5C, CHR ''/''] then Some ([], InString (s @ [c]))
      else if c = CHR ''b'' then Some ([], InString (s @ [CHR 0x08]))
      else if c = CHR ''f'' then Some ([], InString (s @ [CHR 0x0C]))
      else if c = CHR ''n'' then Some ([], InString (s @ [CHR 0x0A]))
      else if c = CHR ''r'' then Some ([], InString (s @ [CHR 0x0D]))
      else if c = CHR ''t'' then Some ([], InString (s @ [CHR 0x09]))
      else if c = CHR ''u'' then Some ([], InUnicode s [])
      else None)"
| "lex_char (InUnicode s hs) c =
     (case hex_value c of
        None \<Rightarrow> None
      | Some h \<Rightarrow>
          (if length hs < 3 then Some ([], InUnicode s (hs @ [h]))
           else Some ([], InString (s @ utf8 (foldl (\<lambda>n d. 16 * n + d) 0 (hs @ [h]))))))"
| "lex_char (InNumber p lit) c =
     (case number_step p c of
        Some p' \<Rightarrow> Some ([], InNumber p' (lit @ [c]))
      | None \<Rightarrow> if number_done p then emit (TNumber lit) c else None)"
| "lex_char (InWord w) c =
     (if is_letter c then Some ([], InWord (w @ [c]))
      else case keyword w of None \<Rightarrow> None | Some t \<Rightarrow> emit t c)"

fun lex_end :: "lexmode \<Rightarrow> token list option" where
  "lex_end Idle = Some []"
| "lex_end (InNumber p lit) = (if number_done p then Some [TNumber lit] else None)"
| "lex_end (InWord w) = (case keyword w of None \<Rightarrow> None | Some t \<Rightarrow> Some [t])"
| "lex_end m = None"

fun lex :: "lexmode \<Rightarrow> string \<Rightarrow> token list option" where
  "lex m [] = lex_end m"
| "lex m (c # cs) =
     (case lex_char m c of
        None \<Rightarrow> None
      | Some (ts, m') \<Rightarrow> (case lex m' cs of None \<Rightarrow> None | Some ts' \<Rightarrow> Some (ts @ ts')))"

text \<open>
  The parser reads the tokens from left to right. It keeps the arrays and objects that
  are open, innermost first, each with what it holds so far (an object also with the key
  whose value is being read), and what may come next.
\<close>

datatype nesting = InArr "string jsval list" | InObj "(string \<times> string jsval) list" "string option"

datatype expect = Value | ValueOrEnd | KeyOrEnd | Key | ColonNext | After "string jsval"

text \<open>A value begins: a bracket or a brace opens, any other token must be a whole value.\<close>

fun begin_value :: "nesting list \<Rightarrow> token \<Rightarrow> (expect \<times> nesting list) option" where
  "begin_value st LBracket = Some (ValueOrEnd, InArr [] # st)"
| "begin_value st LBrace = Some (KeyOrEnd, InObj [] None # st)"
| "begin_value st (TString s) = Some (After (Str s), st)"
| "begin_value st (TNumber lit) = Some (After (Num lit), st)"
| "begin_value st TTrue = Some (After (Bool True), st)"
| "begin_value st TFalse = Some (After (Bool False), st)"
| "begin_value st TNull = Some (After Null, st)"
| "begin_value st t = None"

text \<open>A value \<open>v\<close> has ended: a comma or the closing token of what holds it must follow.\<close>

fun end_value :: "string jsval \<Rightarrow> nesting list \<Rightarrow> token \<Rightarrow> (expect \<times> nesting list) option" where
  "end_value v (InArr xs # st) Comma = Some (Value, InArr (xs @ [v]) # st)"
| "end_value v (InArr xs # st) RBracket = Some (After (Arr (xs @ [v])), st)"
| "end_value v (InObj ms (Some k) # st) Comma = Some (Key, InObj (ms @ [(k, v)]) None # st)"
| "end_value v (InObj ms (Some k) # st) RBrace = Some (After (Obj (ms @ [(k, v)])), st)"
| "end_value v st t = None"

fun begin_member :: "nesting list \<Rightarrow> token \<Rightarrow> (expect \<times> nesting list) option" where
  "begin_member (InObj ms None # st) (TString k) = Some (ColonNext, InObj ms (Some k) # st)"
| "begin_member st t = None"

fun parse_token :: "expect \<Rightarrow> nesting list \<Rightarrow> token \<Rightarrow> (expect \<times> nesting list) option" where
  "parse_token (After v) st t = end_value v st t"
| "parse_token ColonNext st t = (if t = Colon then Some (Value, st) else None)"
| "parse_token Key st t = begin_member st t"
| "parse_token KeyOrEnd st t =
     (if t = RBrace then
        (case st of InObj ms None # st' \<Rightarrow> Some (After (Obj ms), st') | _ \<Rightarrow> None)
      else begin_member st t)"
| "parse_token ValueOrEnd st t =
     (if t = RBracket then
        (case st of InArr xs # st' \<Rightarrow> Some (After (Arr xs), st') | _ \<Rightarrow> None)
      else begin_value st t)"
| "parse_token Value st t = begin_value st t"

fun parse_tokens :: "expect \<Rightarrow> nesting list \<Rightarrow> token list \<Rightarrow> string jsval option" where
  "parse_tokens e st [] = (case (e, st) of (After v, []) \<Rightarrow> Some v | _ \<Rightarrow> None)"
| "parse_tokens e st (t # ts) =
     (case parse_token e st t of None \<Rightarrow> None | Some (e', st') \<Rightarrow> parse_tokens e' st' ts)"

definition json_parse :: "string \<Rightarrow> string jsval option" where
  "json_parse text =
     (case lex Idle text of None \<Rightarrow> None | Some ts \<Rightarrow> parse_tokens Value [] ts)"

definition example_platform :: "string platform" where
  "example_platform =
     \<lparr>TextDecoder_decode = map (\<lambda>b. char_of (unat b)),
      JSON_parse = json_parse,
      Number_toString = (\<lambda>lit. if lit = ''-0'' then ''0'' else lit),
      Number_truthy =
        (\<lambda>lit. \<not> list_all (\<lambda>c. c \<in> set ''-0.'') (takeWhile (\<lambda>c. c \<notin> set ''eE'') lit)),
      Date_toLocaleTimeString = (\<lambda>v. ''Invalid Date'')\<rparr>"

subsection \<open>Frames and states of the examples\<close>

text \<open>Four bytes that stand for an image: the start and end markers of a JPEG file.\<close>

definition jpeg :: "byte list" where
  "jpeg = [0xFF, 0xD8, 0xFF, 0xD9]"

definition bitmap640 :: imageBitmap where
  "bitmap640 = \<lparr>width = 640, height = 480\<rparr>"

text \<open>The metadata of Scenario 2 of the specification, 109 bytes long, and what it parses to.\<close>

definition fire_text :: string where
  \<open>fire_text = ''{"frame_id":"7","unix_time":"1000","alerts":{"emergency_detected":true},"detections":[{"class_name":"Fire"}]}''\<close>

definition fire_payload :: "string jsval" where
  "fire_payload =
     Obj [(''frame_id'', Str ''7''), (''unix_time'', Str ''1000''),
          (''alerts'', Obj [(''emergency_detected'', Bool True)]),
          (''detections'', Arr [Obj [(''class_name'', Str ''Fire'')]])]"

definition fire_alert :: alert where
  "fire_alert =
     \<lparr>alert_id = ''evt_7_1000'', class_name = ''Fire'', severity = ''HIGH'',
      location = ''ROAD 1'', time = ''Invalid Date'', desc = ''Fire emergency triggered.''\<rparr>"

text \<open>A well-formed frame with this metadata.\<close>

definition fire_frame :: "byte list" where
  "fire_frame = [0, 0, 0, 109] @ map of_char fire_text @ jpeg"

text \<open>The same metadata under a header that declares 200 bytes: 113 bytes in all.\<close>

definition truncated_frame :: "byte list" where
  "truncated_frame = [0, 0, 0, 200] @ map of_char fire_text"

text \<open>A frame whose header declares no metadata, followed by an image.\<close>

definition empty_meta_frame :: "byte list" where
  "empty_meta_frame = [0, 0, 0, 0] @ jpeg"

text \<open>A frame that reports a fire and a fall at once (frame 8 at time 1001).\<close>

definition two_text :: string where
  \<open>two_text = ''{"frame_id":8,"unix_time":1001,"alerts":{"emergency_detected":true},"detections":[{"class_name":"Fire"},{"class_name":"Fall"}]}''\<close>

definition two_payload :: "string jsval" where
  "two_payload =
     Obj [(''frame_id'', Num ''8''), (''unix_time'', Num ''1001''),
          (''alerts'', Obj [(''emergency_detected'', Bool True)]),
          (''detections'', Arr [Obj [(''class_name'', Str ''Fire'')],
                                Obj [(''class_name'', Str ''Fall'')]])]"

definition two_frame :: "byte list" where
  "two_frame = [0, 0, 0, 127] @ map of_char two_text @ jpeg"


text \<open>A frame that reports nothing.\<close>

definition quiet_text :: string where
  \<open>quiet_text = ''{"frame_id":10,"unix_time":1003,"alerts":{"emergency_detected":false},"detections":[]}''\<close>

definition quiet_payload :: "string jsval" where
  "quiet_payload =
     Obj [(''frame_id'', Num ''10''), (''unix_time'', Num ''1003''),
          (''alerts'', Obj [(''emergency_detected'', Bool False)]),
          (''detections'', Arr [])]"

definition quiet_frame :: "byte list" where
  "quiet_frame = [0, 0, 0, 86] @ map of_char quiet_text @ jpeg"

text \<open>The component with an open socket and the alert of Scenario 2.\<close>

definition fire_state :: state where
  "fire_state = init\<lparr>alerts := [fire_alert], systemStatus := ''Monitoring Active'',
                     wsRef := Some \<lparr>readyState = OPEN, sent = []\<rparr>\<rparr>"

text \<open>The socket opens, a frame arrives and is read, the socket closes.\<close>

definition close_trace :: "event list" where
  "close_trace = [Open, Message (Blob fire_frame), BufferRead 0, Close]"







section \<open>Properties\<close>

subsection \<open>Resolving an alert\<close>

lemma alerts_handleResolve:
  "alerts (handleResolve x s) =
     (if mounted s then filter (\<lambda>a. alert_id a \<noteq> x) (alerts s) else alerts s)"
  by (simp add: handleResolve_def setAlerts_def split: option.splits)

lemma mounted_handleResolve: "mounted (handleResolve x s) = mounted s"
  by (simp add: handleResolve_def setAlerts_def split: option.splits)

lemma unhandled_handleResolve: "unhandled (handleResolve x s) = unhandled s"
  by (simp add: handleResolve_def setAlerts_def split: option.splits)

lemma wsRef_handleResolve:
  "wsRef (handleResolve x s) =
     (case wsRef s of
        None \<Rightarrow> None
      | Some ws \<Rightarrow>
          if readyState ws = OPEN then Some (ws\<lparr>sent := sent ws @ [resolve_frame x]\<rparr>)
          else Some ws)"
  by (simp add: handleResolve_def setAlerts_def send_def split: option.splits)

lemma quote_char_plain:
  assumes "c \<noteq> CHR 0x22" and "c \<noteq> CHR 0x5C" and "32 \<le> (of_char c :: nat)"
  shows "quote_char c = [c]"
proof -
  have far: "c \<noteq> d" if "(of_char d :: nat) < 32" for d
    using that assms(3) by auto
  have "c \<noteq> CHR 0x08" "c \<noteq> CHR 0x0C" "c \<noteq> CHR 0x0A" "c \<noteq> CHR 0x0D" "c \<noteq> CHR 0x09"
    by (rule far, simp)+
  then show ?thesis
    using assms unfolding quote_char_def by simp
qed

lemma quote_plain:
  assumes "\<forall>c \<in> set x. c \<noteq> CHR 0x22 \<and> c \<noteq> CHR 0x5C \<and> 32 \<le> (of_char c :: nat)"
  shows "quote x = [CHR 0x22] @ x @ [CHR 0x22]"
proof -
  have "concat (map quote_char x) = x"
    using assms by (induction x) (simp_all add: quote_char_plain)
  then show ?thesis by (simp add: quote_def)
qed

lemma fire_state_fields:
  "alerts fire_state = [fire_alert]" "mounted fire_state"
  "wsRef fire_state = Some \<lparr>readyState = OPEN, sent = []\<rparr>" "unhandled fire_state = []"
  by (simp_all add: fire_state_def init_def)

lemma fire_alert_fields:
  "alert_id fire_alert = ''evt_7_1000''" "class_name fire_alert = ''Fire''"
  by (simp_all add: fire_alert_def)

text \<open>
  C5. Resolving the same id twice leaves the alerts as the first call left them. The
  handler has no exceptional exit: the second call, like the first, returns a state, and
  the list of unhandled exceptions is as before. Apart from the socket (which is sent the
  notice again while it is open) the second call changes nothing at all.
\<close>

theorem resolve_idempotent:
  "alerts (handleResolve x (handleResolve x s)) = alerts (handleResolve x s)
   \<and> unhandled (handleResolve x (handleResolve x s)) = unhandled s
   \<and> handleResolve x (handleResolve x s)
       = (handleResolve x s)\<lparr>wsRef := wsRef (handleResolve x (handleResolve x s))\<rparr>"
proof -
  have a: "alerts (handleResolve x (handleResolve x s)) = alerts (handleResolve x s)"
    by (simp add: alerts_handleResolve mounted_handleResolve)
  have b: "unhandled (handleResolve x (handleResolve x s)) = unhandled s"
    by (simp add: unhandled_handleResolve)
  have c: "handleResolve x (handleResolve x s)
       = (handleResolve x s)\<lparr>wsRef := wsRef (handleResolve x (handleResolve x s))\<rparr>"
    by (simp add: handleResolve_def setAlerts_def split: option.splits)
  from a b c show ?thesis by simp
qed

theorem resolve_idempotent_witness:
  "alerts (handleResolve ''evt_7_1000'' fire_state) = []
   \<and> alerts (handleResolve ''evt_7_1000'' (handleResolve ''evt_7_1000'' fire_state)) = []
   \<and> unhandled (handleResolve ''evt_7_1000'' (handleResolve ''evt_7_1000'' fire_state)) = []"
proof -
  have "alerts (handleResolve ''evt_7_1000'' fire_state) = []"
    by (simp add: alerts_handleResolve fire_state_fields fire_alert_fields)
  then show ?thesis
    using resolve_idempotent [of "''evt_7_1000''" fire_state]
    by (simp add: fire_state_fields)
qed

text \<open>
  C6. With an open socket in \<^verbatim>\<open>wsRef\<close>, \<^verbatim>\<open>handleResolve\<close> gives the socket exactly one
  more frame, the JSON text of \<^verbatim>\<open>{action: "resolve", event_id: x}\<close>; with a socket in any
  other state, or none, nothing is sent. In each case the alerts of the mounted component
  become those whose id is not \<open>x\<close>. For an id free of quotes, backslashes and control
  characters the frame is the id between the fixed texts.
\<close>

theorem resolve_sends_when_open:
  \<open>(wsRef s = Some ws \<and> readyState ws = OPEN \<longrightarrow>
      wsRef (handleResolve x s) = Some (ws\<lparr>sent := sent ws @ [resolve_frame x]\<rparr>))
   \<and> (wsRef s = Some ws \<and> readyState ws \<noteq> OPEN \<longrightarrow> wsRef (handleResolve x s) = wsRef s)
   \<and> (wsRef s = None \<longrightarrow> wsRef (handleResolve x s) = None)
   \<and> (mounted s \<longrightarrow> alerts (handleResolve x s) = filter (\<lambda>a. alert_id a \<noteq> x) (alerts s))
   \<and> ((\<forall>c \<in> set x. c \<noteq> CHR 0x22 \<and> c \<noteq> CHR 0x5C \<and> 32 \<le> (of_char c :: nat)) \<longrightarrow>
        resolve_frame x = ''{"action":"resolve","event_id":"'' @ x @ ''"}'')\<close>
  by (simp add: wsRef_handleResolve alerts_handleResolve resolve_frame_def quote_plain)

theorem resolve_sends_when_open_witness:
  \<open>wsRef (handleResolve ''evt_7_1000'' fire_state)
     = Some \<lparr>readyState = OPEN, sent = [''{"action":"resolve","event_id":"evt_7_1000"}'']\<rparr>
   \<and> alerts (handleResolve ''evt_7_1000'' fire_state) = []
   \<and> wsRef (handleResolve ''evt_7_1000'' init) = wsRef init
   \<and> wsRef (handleResolve ''evt_7_1000'' (init\<lparr>wsRef := None\<rparr>)) = None
   \<and> alerts (handleResolve ''evt_7_1000'' (init\<lparr>alerts := [fire_alert]\<rparr>)) = []\<close>
proof -
  have plain: \<open>\<forall>c \<in> set ''evt_7_1000''. c \<noteq> CHR 0x22 \<and> c \<noteq> CHR 0x5C \<and> 32 \<le> (of_char c :: nat)\<close>
    by simp
  have closed: "readyState \<lparr>readyState = CONNECTING, sent = []\<rparr> \<noteq> OPEN"
    by (simp add: CONNECTING_def OPEN_def)
  show ?thesis
    using resolve_sends_when_open
            [of fire_state "\<lparr>readyState = OPEN, sent = []\<rparr>" "''evt_7_1000''"]
          resolve_sends_when_open
            [of init "\<lparr>readyState = CONNECTING, sent = []\<rparr>" "''evt_7_1000''"]
          resolve_sends_when_open
            [of "init\<lparr>alerts := [fire_alert]\<rparr>" "\<lparr>readyState = CONNECTING, sent = []\<rparr>" "''evt_7_1000''"]
          resolve_sends_when_open
            [of "init\<lparr>wsRef := None\<rparr>" "\<lparr>readyState = CONNECTING, sent = []\<rparr>" "''evt_7_1000''"]
          plain closed
    by (simp add: fire_state_fields fire_alert_fields init_def)
qed

text \<open>
  C9. An id that no alert carries: with an open socket the notice is sent all the same,
  the JSON text of \<^verbatim>\<open>{action: "resolve", event_id: x}\<close> (for an id free of quotes,
  backslashes and control characters, the id between the fixed texts), and the alerts
  stay as they are.
\<close>

theorem resolve_absent_still_sends:
  assumes "wsRef s = Some ws" and "readyState ws = OPEN"
    and "\<not> list_ex (\<lambda>a. alert_id a = x) (alerts s)"
  shows \<open>wsRef (handleResolve x s)
           = Some (ws\<lparr>sent := sent ws @ [''{"action":"resolve","event_id":'' @ quote x @ ''}'']\<rparr>)
         \<and> ((\<forall>c \<in> set x. c \<noteq> CHR 0x22 \<and> c \<noteq> CHR 0x5C \<and> 32 \<le> (of_char c :: nat)) \<longrightarrow>
              wsRef (handleResolve x s)
                = Some (ws\<lparr>sent := sent ws @ [''{"action":"resolve","event_id":"'' @ x @ ''"}'']\<rparr>))
         \<and> alerts (handleResolve x s) = alerts s\<close>
proof -
  have "filter (\<lambda>a. alert_id a \<noteq> x) (alerts s) = alerts s"
    using assms(3) by (simp add: list_ex_iff filter_id_conv)
  then show ?thesis
    using assms(1,2)
    by (simp add: wsRef_handleResolve alerts_handleResolve resolve_frame_def quote_plain)
qed

theorem resolve_absent_still_sends_witness:
  \<open>wsRef (handleResolve ''evt_0_0'' fire_state)
     = Some \<lparr>readyState = OPEN, sent = [''{"action":"resolve","event_id":"evt_0_0"}'']\<rparr>
   \<and> alerts (handleResolve ''evt_0_0'' fire_state) = [fire_alert]\<close>
proof -
  have absent: "\<not> list_ex (\<lambda>a. alert_id a = ''evt_0_0'') (alerts fire_state)"
    by (simp add: fire_state_fields fire_alert_fields)
  have plain: \<open>\<forall>c \<in> set ''evt_0_0''. c \<noteq> CHR 0x22 \<and> c \<noteq> CHR 0x5C \<and> 32 \<le> (of_char c :: nat)\<close>
    by simp
  have "readyState \<lparr>readyState = OPEN, sent = []\<rparr> = OPEN"
    by simp
  from resolve_absent_still_sends [OF fire_state_fields(3) this absent] plain
  have \<open>wsRef (handleResolve ''evt_0_0'' fire_state)
          = Some (\<lparr>readyState = OPEN, sent = []\<rparr>
                    \<lparr>sent := sent \<lparr>readyState = OPEN, sent = []\<rparr>
                             @ [''{"action":"resolve","event_id":"'' @ ''evt_0_0'' @ ''"}'']\<rparr>)\<close>
    and "alerts (handleResolve ''evt_0_0'' fire_state) = alerts fire_state"
    by blast+
  then show ?thesis
    by (simp add: fire_state_fields)
qed

subsection \<open>Messages that are not binary\<close>

text \<open>
  C10. A message whose data is not a Blob changes nothing: the alerts, the status, the
  handlers waiting for a buffer or a bitmap, the paints requested and done are all as
  before, whatever the state and the platform.
\<close>

theorem text_message_ignored:
  "(\<forall>bytes. d \<noteq> Blob bytes) \<longrightarrow> step P (Message d) s = s \<and> onmessage d s = s"
  by (cases d) simp_all

theorem text_message_ignored_witness:
  "step example_platform (Message (Text fire_text)) fire_state = fire_state"
  using text_message_ignored [of "Text fire_text" example_platform fire_state] by simp

subsection \<open>The frame\<close>

lemma slice_take_drop: "slice buf b e = drop b (take e buf)"
  by (simp add: slice_def Let_def min_def drop_take)

lemma slice_from_drop: "slice_from buf b = drop b buf"
  by (simp add: slice_from_def slice_take_drop)

lemma getUint32_short: "length buf < 4 \<Longrightarrow> getUint32 buf 0 = Inl RangeError"
  by (simp add: getUint32_def)

lemma getUint32_long: "4 \<le> length buf \<Longrightarrow> \<exists>L. getUint32 buf 0 = Inr L"
  by (simp add: getUint32_def)

lemma getUint32_header: "length hdr = 4 \<Longrightarrow> getUint32 (hdr @ rest) 0 = getUint32 hdr 0"
  by (simp add: getUint32_def nth_append)

text \<open>A frame written as its header, its metadata and its image.\<close>

lemma demux_frame:
  assumes "length hdr = 4" and "getUint32 hdr 0 = Inr (length meta)"
  shows "demux P (hdr @ meta @ img) =
           (case JSON_parse P (TextDecoder_decode P meta) of
              None \<Rightarrow> Inl SyntaxError
            | Some v \<Rightarrow> Inr (v, img))"
  using assms
  by (simp add: demux_def getUint32_header slice_take_drop slice_from_drop split: option.splits)

text \<open>A frame that ends before the metadata its header declares does.\<close>

lemma demux_short:
  assumes "length hdr = 4" and "getUint32 hdr 0 = Inr L" and "length rest \<le> L"
  shows "demux P (hdr @ rest) =
           (case JSON_parse P (TextDecoder_decode P rest) of
              None \<Rightarrow> Inl SyntaxError
            | Some v \<Rightarrow> Inr (v, []))"
  using assms
  by (simp add: demux_def getUint32_header slice_take_drop slice_from_drop split: option.splits)

lemma on_buffer_Inl: "demux P buf = Inl e \<Longrightarrow> on_buffer P buf s = s\<lparr>unhandled := unhandled s @ [e]\<rparr>"
  by (simp add: on_buffer_def reject_def)

lemma on_buffer_Inr:
  assumes "demux P buf = Inr (payload, img)" and "ingest P payload s = (s', None)"
  shows "on_buffer P buf s = s'\<lparr>decoding := decoding s' @ [img]\<rparr>"
  using assms by (simp add: on_buffer_def)

text \<open>The platform of the examples on the frames of the examples.\<close>

lemma char_of_unat_of_char: "char_of (unat (of_char c :: byte)) = c"
proof -
  have "(of_char c :: byte) = of_nat (of_char c)"
    by (simp add: of_nat_of_char)
  then have "unat (of_char c :: byte) = of_char c mod 256"
    by (simp add: unat_of_nat)
  then show ?thesis by simp
qed

lemma decode_example: "TextDecoder_decode example_platform (map of_char s) = s"
  by (simp add: example_platform_def comp_def char_of_unat_of_char)

lemma parse_example: "JSON_parse example_platform = json_parse"
  by (simp add: example_platform_def)

lemma json_parse_empty: "json_parse [] = None"
  by (simp add: json_parse_def)

lemma json_parse_fire: "json_parse fire_text = Some fire_payload"
  by code_simp

lemma length_fire_text: "length fire_text = 109"
  by (simp add: fire_text_def)

lemma demux_fire_frame: "demux example_platform fire_frame = Inr (fire_payload, jpeg)"
proof -
  have "demux example_platform ([0, 0, 0, 109] @ map of_char fire_text @ jpeg) =
          (case JSON_parse example_platform
                  (TextDecoder_decode example_platform (map of_char fire_text)) of
             None \<Rightarrow> Inl SyntaxError
           | Some v \<Rightarrow> Inr (v, jpeg))"
    by (rule demux_frame) (simp_all add: getUint32_def length_fire_text)
  then show ?thesis
    by (simp add: fire_frame_def decode_example parse_example json_parse_fire)
qed

lemma demux_truncated_frame: "demux example_platform truncated_frame = Inr (fire_payload, [])"
proof -
  have "demux example_platform ([0, 0, 0, 200] @ map of_char fire_text) =
          (case JSON_parse example_platform
                  (TextDecoder_decode example_platform (map of_char fire_text)) of
             None \<Rightarrow> Inl SyntaxError
           | Some v \<Rightarrow> Inr (v, []))"
    by (rule demux_short [where L = 200]) (simp_all add: getUint32_def length_fire_text)
  then show ?thesis
    by (simp add: truncated_frame_def decode_example parse_example json_parse_fire)
qed

lemma demux_empty_meta_frame: "demux example_platform empty_meta_frame = Inl SyntaxError"
proof -
  have "demux example_platform ([0, 0, 0, 0] @ [] @ jpeg) =
          (case JSON_parse example_platform (TextDecoder_decode example_platform []) of
             None \<Rightarrow> Inl SyntaxError
           | Some v \<Rightarrow> Inr (v, jpeg))"
    by (rule demux_frame) (simp_all add: getUint32_def)
  then show ?thesis
    by (simp add: empty_meta_frame_def parse_example json_parse_empty example_platform_def)
qed

lemma new_alert_fire:
  "new_alert example_platform fire_payload ''Fire'' ''evt_7_1000'' = Inr fire_alert"
  by (simp add: new_alert_def new_Date_def fire_payload_def fire_alert_def example_platform_def)

lemma ingest_fire:
  assumes "mounted s" and "alerts s = []"
  shows "ingest example_platform fire_payload s = (s\<lparr>alerts := [fire_alert]\<rparr>, None)"
proof -
  have "eventId_of example_platform fire_payload = Inr ''evt_7_1000''"
    by (simp add: eventId_of_def fire_payload_def)
  moreover have "add_alert example_platform fire_payload ''Fire'' ''evt_7_1000'' [] = Inr [fire_alert]"
    by (simp add: add_alert_def new_alert_fire)
  ultimately have "on_detection example_platform fire_payload (Obj [(''class_name'', Str ''Fire'')]) s
      = Inr (s\<lparr>alerts := [fire_alert]\<rparr>)"
    using assms by (simp add: on_detection_def getprop_def emergency_classes_def setAlerts_def)
  then show ?thesis
    by (simp add: ingest_def getprop_def optprop_def fire_payload_def)
qed

lemma json_parse_quiet: "json_parse quiet_text = Some quiet_payload"
  by code_simp

lemma demux_quiet_frame: "demux example_platform quiet_frame = Inr (quiet_payload, jpeg)"
proof -
  have "length quiet_text = 86"
    by (simp add: quiet_text_def)
  then have "demux example_platform ([0, 0, 0, 86] @ map of_char quiet_text @ jpeg) =
          (case JSON_parse example_platform
                  (TextDecoder_decode example_platform (map of_char quiet_text)) of
             None \<Rightarrow> Inl SyntaxError
           | Some v \<Rightarrow> Inr (v, jpeg))"
    by (intro demux_frame) (simp_all add: getUint32_def)
  then show ?thesis
    by (simp add: quiet_frame_def decode_example parse_example json_parse_quiet)
qed

text \<open>The component once its socket has opened.\<close>

lemma opened:
  "step P Open init = init\<lparr>systemStatus := ''Monitoring Active'',
                            wsRef := Some \<lparr>readyState = OPEN, sent = []\<rparr>\<rparr>"
  by (simp add: init_def onopen_def setSystemStatus_def set_readyState_def)

lemma received:
  assumes "reading s = []"
  shows "step P (BufferRead 0) (step P (Message (Blob bytes)) s) = on_buffer P bytes s"
proof -
  have same: "s\<lparr>reading := []\<rparr> = s"
    using assms by (cases s) simp
  have "step P (BufferRead 0) (step P (Message (Blob bytes)) s)
          = on_buffer P bytes (s\<lparr>reading := []\<rparr>)"
    using assms by (simp add: take_out_def)
  then show ?thesis
    by (simp only: same)
qed

lemma run_append: "run P (es @ es') s = run P es' (run P es s)"
  by (simp add: run_def)

lemma init_fields:
  "alerts init = []" "mounted init" "reading init = []" "decoding init = []"
  "frames init = []" "painted init = []" "unhandled init = []"
  "canvasRef init = Some \<lparr>canvas_width = 300, canvas_height = 150\<rparr>"
  by (simp_all add: init_def)

lemma ingest_quiet:
  assumes "\<not> nullish payload"
    and "\<not> truthy P (optprop (property payload ''alerts'') ''emergency_detected'')"
  shows "ingest P payload s = (s, None)"
  using assms by (simp add: ingest_def getprop_def)

text \<open>An animation frame on a canvas that is there paints every bitmap requested.\<close>

lemma fold_paint_mounted:
  "canvasRef s = Some c \<Longrightarrow>
     painted (fold paint bms s) = painted s @ bms \<and> canvasRef (fold paint bms s) \<noteq> None"
proof (induction bms arbitrary: s c)
  case Nil
  then show ?case by simp
next
  case (Cons bm bms)
  let ?s = "paint bm s"
  from Cons.prems have "canvasRef ?s
      = Some (c\<lparr>canvas_width := width bm, canvas_height := height bm\<rparr>)"
    and "painted ?s = painted s @ [bm]"
    by (simp_all add: paint_def)
  with Cons.IH [of ?s] show ?case by simp
qed

lemma painted_fold_paint:
  "canvasRef s = Some c \<Longrightarrow> painted (fold paint bms s) = painted s @ bms"
  using fold_paint_mounted by blast

text \<open>
  C1. What the handler makes of the bytes of a message. It fails with a RangeError when
  there are fewer than four bytes and with a SyntaxError when the metadata does not
  parse; it then only records the exception: no alert, no decoding, no paint, the status
  as it was. Otherwise it has the metadata and the image, and the image is as long as the
  message less 4 and less the declared length \<open>L\<close>, or empty when that is negative. The
  header is not checked against the message: when the message is shorter than \<open>4 + L\<close>
  the metadata is what follows the header and the image is empty.
\<close>

theorem demux_outcomes:
  "((length buf < 4 \<and> demux P buf = Inl RangeError)
    \<or> (\<exists>L. getUint32 buf 0 = Inr L
           \<and> JSON_parse P (TextDecoder_decode P (slice buf 4 (4 + L))) = None
           \<and> demux P buf = Inl SyntaxError)
    \<or> (\<exists>L v. getUint32 buf 0 = Inr L
           \<and> JSON_parse P (TextDecoder_decode P (slice buf 4 (4 + L))) = Some v
           \<and> demux P buf = Inr (v, drop (4 + L) buf)
           \<and> int (length (drop (4 + L) buf)) = max 0 (int (length buf) - 4 - int L)))
   \<and> (getUint32 buf 0 = Inr L \<and> length buf < 4 + L \<longrightarrow>
        slice buf 4 (4 + L) = drop 4 buf \<and> slice_from buf (4 + L) = [])
   \<and> (demux P buf = Inl e \<longrightarrow> on_buffer P buf s = s\<lparr>unhandled := unhandled s @ [e]\<rparr>)"
proof -
  have a: "(length buf < 4 \<and> demux P buf = Inl RangeError)
    \<or> (\<exists>L. getUint32 buf 0 = Inr L
           \<and> JSON_parse P (TextDecoder_decode P (slice buf 4 (4 + L))) = None
           \<and> demux P buf = Inl SyntaxError)
    \<or> (\<exists>L v. getUint32 buf 0 = Inr L
           \<and> JSON_parse P (TextDecoder_decode P (slice buf 4 (4 + L))) = Some v
           \<and> demux P buf = Inr (v, drop (4 + L) buf)
           \<and> int (length (drop (4 + L) buf)) = max 0 (int (length buf) - 4 - int L))"
  proof (cases "length buf < 4")
    case True
    then show ?thesis by (simp add: demux_def getUint32_short)
  next
    case False
    then obtain L where L: "getUint32 buf 0 = Inr L"
      using getUint32_long [of buf] by auto
    have len: "int (length (drop (4 + L) buf)) = max 0 (int (length buf) - 4 - int L)"
      by simp
    show ?thesis
    proof (cases "JSON_parse P (TextDecoder_decode P (slice buf 4 (4 + L)))")
      case None
      with L show ?thesis by (auto simp: demux_def)
    next
      case (Some v)
      with L len show ?thesis by (auto simp: demux_def slice_from_drop)
    qed
  qed
  have b: "getUint32 buf 0 = Inr L \<and> length buf < 4 + L \<longrightarrow>
        slice buf 4 (4 + L) = drop 4 buf \<and> slice_from buf (4 + L) = []"
    by (simp add: slice_take_drop slice_from_drop)
  have c: "demux P buf = Inl e \<longrightarrow> on_buffer P buf s = s\<lparr>unhandled := unhandled s @ [e]\<rparr>"
    by (simp add: on_buffer_Inl)
  from a b c show ?thesis by blast
qed

theorem demux_outcomes_witness:
  "demux example_platform fire_frame = Inr (fire_payload, jpeg)
   \<and> int (length jpeg) = int (length fire_frame) - 4 - 109
   \<and> demux example_platform [0, 0] = Inl RangeError
   \<and> on_buffer example_platform [0, 0] init = init\<lparr>unhandled := [RangeError]\<rparr>
   \<and> slice truncated_frame 4 (4 + 200) = drop 4 truncated_frame
   \<and> slice_from truncated_frame (4 + 200) = []"
proof -
  have header: "getUint32 truncated_frame 0 = Inr 200 \<and> length truncated_frame < 4 + 200"
    by (simp add: truncated_frame_def getUint32_def length_fire_text)
  have short: "length [0, 0 :: byte] < 4"
    by simp
  then have "demux example_platform [0, 0] = Inl RangeError"
    by (simp add: demux_def getUint32_short)
  moreover have "unhandled init = []"
    by (simp add: init_def)
  moreover have "int (length jpeg) = int (length fire_frame) - 4 - 109"
    by (simp add: jpeg_def fire_frame_def length_fire_text)
  ultimately show ?thesis
    using demux_outcomes [of "[0, 0]" example_platform 0 RangeError init]
          demux_outcomes [of truncated_frame example_platform 200 RangeError init]
          demux_fire_frame header
    by simp
qed

text \<open>
  The claim as the specification has it fails on \<open>truncated_frame\<close>: 113 bytes under a
  header that declares 200. The handler does not fail; it parses the 109 bytes that are
  there, returns them with an empty image, and the alert of the fire is created.
\<close>

theorem truncated_frame_counterexample:
  "length truncated_frame = 113
   \<and> getUint32 truncated_frame 0 = Inr 200
   \<and> demux example_platform truncated_frame = Inr (fire_payload, [])
   \<and> run example_platform [Open, Message (Blob truncated_frame), BufferRead 0] init
       = init\<lparr>alerts := [fire_alert], systemStatus := ''Monitoring Active'',
               wsRef := Some \<lparr>readyState = OPEN, sent = []\<rparr>, decoding := [Nil]\<rparr>"
proof -
  let ?open = "init\<lparr>systemStatus := ''Monitoring Active'',
                    wsRef := Some \<lparr>readyState = OPEN, sent = []\<rparr>\<rparr>"
  have a: "length truncated_frame = 113"
    by (simp add: truncated_frame_def length_fire_text)
  have b: "getUint32 truncated_frame 0 = Inr 200"
    by (simp add: truncated_frame_def getUint32_def)
  have "run example_platform [Open, Message (Blob truncated_frame), BufferRead 0] init
          = on_buffer example_platform truncated_frame ?open"
    by (simp add: run_def opened received init_fields del: step.simps)
  also have "\<dots> = ?open\<lparr>alerts := [fire_alert], decoding := decoding ?open @ [Nil]\<rparr>"
    using on_buffer_Inr [OF demux_truncated_frame ingest_fire, of ?open]
    by (simp add: init_fields)
  also have "\<dots> = init\<lparr>alerts := [fire_alert], systemStatus := ''Monitoring Active'',
               wsRef := Some \<lparr>readyState = OPEN, sent = []\<rparr>, decoding := [Nil]\<rparr>"
    by (simp add: init_def)
  finally show ?thesis
    using a b demux_truncated_frame by simp
qed

text \<open>
  C2. A header that declares no metadata: the text given to \<^verbatim>\<open>JSON.parse\<close> is empty,
  which is not JSON, and the handler ends there with a SyntaxError. No alert is created
  and the image is neither decoded nor painted. What the claim says of a frame without an
  emergency holds for metadata that parses: when \<^verbatim>\<open>emergency_detected\<close> is false or
  absent the alerts stay as they are, the image goes to the decoder, and a bitmap that
  comes back is painted at the next animation frame of a mounted canvas.
\<close>

theorem empty_metadata_rejected:
  assumes "getUint32 buf 0 = Inr 0" and "JSON_parse P (TextDecoder_decode P []) = None"
  shows "demux P buf = Inl SyntaxError
         \<and> on_buffer P buf s = s\<lparr>unhandled := unhandled s @ [SyntaxError]\<rparr>
         \<and> (demux P buf' = Inr (payload, img) \<and> \<not> nullish payload
              \<and> \<not> truthy P (optprop (property payload ''alerts'') ''emergency_detected'')
            \<longrightarrow> on_buffer P buf' s = s\<lparr>decoding := decoding s @ [img]\<rparr>)
         \<and> (canvasRef s = Some c \<longrightarrow>
              painted (animation_frame (on_bitmap (Some imageBitmap) s))
                = painted s @ frames s @ [imageBitmap])"
proof -
  have "slice buf 4 (4 + 0) = []"
    by (simp add: slice_take_drop)
  with assms have a: "demux P buf = Inl SyntaxError"
    by (simp add: demux_def)
  then have b: "on_buffer P buf s = s\<lparr>unhandled := unhandled s @ [SyntaxError]\<rparr>"
    by (rule on_buffer_Inl)
  have c: "on_buffer P buf' s = s\<lparr>decoding := decoding s @ [img]\<rparr>"
    if "demux P buf' = Inr (payload, img)" and "\<not> nullish payload"
      and "\<not> truthy P (optprop (property payload ''alerts'') ''emergency_detected'')"
    using that by (simp add: on_buffer_def ingest_quiet)
  have d: "painted (animation_frame (on_bitmap (Some imageBitmap) s))
             = painted s @ frames s @ [imageBitmap]"
    if "canvasRef s = Some c"
  proof -
    from that have "canvasRef (s\<lparr>frames := []\<rparr>) = Some c"
      by simp
    then have "painted (fold paint (frames s @ [imageBitmap]) (s\<lparr>frames := []\<rparr>))
                 = painted (s\<lparr>frames := []\<rparr>) @ (frames s @ [imageBitmap])"
      by (rule painted_fold_paint)
    then show ?thesis
      by (simp add: animation_frame_def del: fold_append)
  qed
  from a b c d show ?thesis by blast
qed

theorem empty_metadata_rejected_witness:
  "demux example_platform empty_meta_frame = Inl SyntaxError
   \<and> on_buffer example_platform empty_meta_frame fire_state
       = fire_state\<lparr>unhandled := [SyntaxError]\<rparr>
   \<and> on_buffer example_platform quiet_frame fire_state = fire_state\<lparr>decoding := [jpeg]\<rparr>
   \<and> painted (animation_frame (on_bitmap (Some bitmap640) fire_state)) = [bitmap640]"
proof -
  have header: "getUint32 empty_meta_frame 0 = Inr 0"
    by (simp add: empty_meta_frame_def getUint32_def)
  have empty: "JSON_parse example_platform (TextDecoder_decode example_platform []) = None"
    by (simp add: example_platform_def json_parse_empty)
  have quiet: "\<not> nullish quiet_payload
      \<and> \<not> truthy example_platform
            (optprop (property quiet_payload ''alerts'') ''emergency_detected'')"
    by (simp add: quiet_payload_def optprop_def)
  have rest: "unhandled fire_state = []" "decoding fire_state = []" "frames fire_state = []"
    "painted fire_state = []"
    "canvasRef fire_state = Some \<lparr>canvas_width = 300, canvas_height = 150\<rparr>"
    by (simp_all add: fire_state_def init_def)
  show ?thesis
    using empty_metadata_rejected
            [OF header empty, of fire_state quiet_frame quiet_payload jpeg
               "\<lparr>canvas_width = 300, canvas_height = 150\<rparr>" bitmap640]
          demux_quiet_frame quiet rest
    by simp
qed

text \<open>
  The claim as the specification has it fails on \<open>empty_meta_frame\<close>, four zero bytes
  and an image: the handler ends with a SyntaxError, and nothing is painted, even when the
  browser is asked for the bitmap and for an animation frame afterwards.
\<close>

theorem empty_metadata_counterexample:
  "getUint32 empty_meta_frame 0 = Inr 0
   \<and> demux example_platform empty_meta_frame = Inl SyntaxError
   \<and> run example_platform
        [Open, Message (Blob empty_meta_frame), BufferRead 0,
         ImageDecoded 0 (Some bitmap640), AnimationFrame] init
       = init\<lparr>systemStatus := ''Monitoring Active'',
               wsRef := Some \<lparr>readyState = OPEN, sent = []\<rparr>,
               unhandled := [SyntaxError]\<rparr>"
proof -
  let ?open = "init\<lparr>systemStatus := ''Monitoring Active'',
                    wsRef := Some \<lparr>readyState = OPEN, sent = []\<rparr>\<rparr>"
  let ?failed = "?open\<lparr>unhandled := unhandled ?open @ [SyntaxError]\<rparr>"
  have a: "getUint32 empty_meta_frame 0 = Inr 0"
    by (simp add: empty_meta_frame_def getUint32_def)
  have "run example_platform [Open, Message (Blob empty_meta_frame), BufferRead 0] init
          = on_buffer example_platform empty_meta_frame ?open"
    by (simp add: run_def opened received init_fields del: step.simps)
  also have "\<dots> = ?failed"
    by (rule on_buffer_Inl [OF demux_empty_meta_frame])
  finally have "run example_platform
        ([Open, Message (Blob empty_meta_frame), BufferRead 0]
         @ [ImageDecoded 0 (Some bitmap640), AnimationFrame]) init
       = run example_platform [ImageDecoded 0 (Some bitmap640), AnimationFrame] ?failed"
    by (simp only: run_append)
  also have "\<dots> = ?failed"
    by (simp add: run_def animation_frame_def init_def)
  also have "\<dots> = init\<lparr>systemStatus := ''Monitoring Active'',
               wsRef := Some \<lparr>readyState = OPEN, sent = []\<rparr>,
               unhandled := [SyntaxError]\<rparr>"
    by (simp add: init_def)
  finally show ?thesis
    using a demux_empty_meta_frame by simp
qed

subsection \<open>The alert collection\<close>

lemma new_alert_Inr:
  assumes "new_alert P payload c eid = Inr a"
  shows "alert_id a = eid" and "class_name a = c" and "severity a = ''HIGH''"
  using assms by (auto simp: new_alert_def split: sum.splits)

lemma add_alert_present:
  "list_ex (\<lambda>a. class_name a = c) prev \<Longrightarrow> add_alert P payload c eid prev = Inr prev"
  by (simp add: add_alert_def)

lemma add_alert_Inr:
  assumes "add_alert P payload c eid prev = Inr r"
  obtains (present) "r = prev" and "list_ex (\<lambda>a. class_name a = c) prev"
  | (absent) a where "r = a # prev" and "new_alert P payload c eid = Inr a"
      and "\<not> list_ex (\<lambda>a. class_name a = c) prev"
  using assms by (auto simp: add_alert_def split: if_splits sum.splits)

lemma add_alert_classes:
  assumes "add_alert P payload c eid prev = Inr r"
  shows "class_name ` set r = insert c (class_name ` set prev)"
  using assms
  by (cases rule: add_alert_Inr) (auto simp: list_ex_iff dest: new_alert_Inr(2))

text \<open>What \<^verbatim>\<open>setAlerts\<close> changes.\<close>

lemma setAlerts_unmounted: "\<not> mounted s \<Longrightarrow> setAlerts f s = s"
  by (simp add: setAlerts_def)

lemma setAlerts_mounted:
  assumes "mounted (setAlerts f s)"
  obtains r where "mounted s" and "f (alerts s) = Inr r" and "setAlerts f s = s\<lparr>alerts := r\<rparr>"
  using assms by (auto simp: setAlerts_def unmount_def split: if_splits sum.splits)

lemma setAlerts_keeps:
  "painted (setAlerts f s) = painted s" "frames (setAlerts f s) = frames s"
  "systemStatus (setAlerts f s) = systemStatus s" "reading (setAlerts f s) = reading s"
  "decoding (setAlerts f s) = decoding s" "unhandled (setAlerts f s) = unhandled s"
  by (simp_all add: setAlerts_def unmount_def split: sum.splits)

lemma setAlerts_unmounts:
  "canvasRef s = None \<Longrightarrow> canvasRef (setAlerts f s) = None"
  "mounted (setAlerts f s) \<Longrightarrow> mounted s"
  by (simp_all add: setAlerts_def unmount_def split: sum.splits if_splits)

lemma alerts_setAlerts_add:
  "alerts (setAlerts (add_alert P payload c eid) s) = alerts s
   \<or> (\<exists>a. new_alert P payload c eid = Inr a
          \<and> alerts (setAlerts (add_alert P payload c eid) s) = a # alerts s
          \<and> \<not> list_ex (\<lambda>a. class_name a = c) (alerts s))"
proof (cases "mounted s")
  case False
  then show ?thesis by (simp add: setAlerts_unmounted)
next
  case True
  show ?thesis
  proof (cases "add_alert P payload c eid (alerts s)")
    case (Inl e)
    with True show ?thesis by (simp add: setAlerts_def unmount_def)
  next
    case (Inr r)
    from Inr show ?thesis
    proof (cases rule: add_alert_Inr)
      case present
      with True Inr show ?thesis by (simp add: setAlerts_def)
    next
      case (absent a)
      with True Inr show ?thesis by (simp add: setAlerts_def)
    qed
  qed
qed

lemma setAlerts_add_distinct:
  assumes "distinct (map class_name (alerts s))"
  shows "distinct (map class_name (alerts (setAlerts (add_alert P payload c eid) s)))"
proof -
  let ?s = "setAlerts (add_alert P payload c eid) s"
  from alerts_setAlerts_add [of P payload c eid s] consider "alerts ?s = alerts s"
    | a where "new_alert P payload c eid = Inr a" and "alerts ?s = a # alerts s"
        and "\<not> list_ex (\<lambda>a. class_name a = c) (alerts s)"
    by blast
  then show ?thesis
  proof cases
    case 1
    with assms show ?thesis by simp
  next
    case (2 a)
    from 2(1) have "class_name a = c"
      by (rule new_alert_Inr)
    with 2 assms show ?thesis
      by (auto simp: list_ex_iff)
  qed
qed

lemma setAlerts_add_classes:
  "class_name ` set (alerts s)
     \<subseteq> class_name ` set (alerts (setAlerts (add_alert P payload c eid) s))"
  using alerts_setAlerts_add [of P payload c eid s] by auto

text \<open>The only exception of the alert logic is the TypeError.\<close>

lemma ToString_TypeError:
  "ToString P v = Inl e \<Longrightarrow> e = TypeError"
  "join P vs = Inl e \<Longrightarrow> e = TypeError"
  by (induction P v and P vs rule: ToString_join.induct)
     (auto split: if_splits sum.splits)

lemma eventId_of_TypeError: "eventId_of P payload = Inl e \<Longrightarrow> e = TypeError"
  by (auto simp: eventId_of_def split: sum.splits dest: ToString_TypeError)

text \<open>
  What a detection does is settled by the detection and the payload: it throws, or it
  leaves the state alone, or it gives \<^verbatim>\<open>setAlerts\<close> the updater of one class.
\<close>

lemma on_detection_kinds:
  obtains (throws) "\<forall>s. on_detection P payload det s = Inl TypeError"
  | (skips) "\<forall>s. on_detection P payload det s = Inr s"
  | (adds) c eid where "getprop det ''class_name'' = Inr (Str c)"
      and "c \<in> set emergency_classes" and "eventId_of P payload = Inr eid"
      and "\<forall>s. on_detection P payload det s = Inr (setAlerts (add_alert P payload c eid) s)"
proof (cases "getprop det ''class_name''")
  case (Inl e)
  then have "e = TypeError"
    by (simp add: getprop_def split: if_splits)
  with Inl throws show ?thesis
    by (simp add: on_detection_def)
next
  case (Inr v)
  show ?thesis
  proof (cases "\<exists>c. v = Str c \<and> c \<in> set emergency_classes")
    case False
    with Inr have "\<forall>s. on_detection P payload det s = Inr s"
      by (cases v) (simp_all add: on_detection_def)
    then show ?thesis by (rule skips)
  next
    case True
    then obtain c where c: "v = Str c" "c \<in> set emergency_classes"
      by blast
    show ?thesis
    proof (cases "eventId_of P payload")
      case (Inl e)
      then have "e = TypeError"
        by (rule eventId_of_TypeError)
      with Inl Inr c throws show ?thesis
        by (simp add: on_detection_def)
    next
      case eid: (Inr eid)
      with Inr c have "\<forall>s. on_detection P payload det s
                            = Inr (setAlerts (add_alert P payload c eid) s)"
        by (simp add: on_detection_def)
      with Inr c eid adds show ?thesis
        by blast
    qed
  qed
qed

text \<open>What the loop leaves alone, and what it can only undo.\<close>

lemma forEach_keeps:
  "painted (fst (forEach P payload dets s)) = painted s
   \<and> frames (fst (forEach P payload dets s)) = frames s
   \<and> systemStatus (fst (forEach P payload dets s)) = systemStatus s
   \<and> reading (fst (forEach P payload dets s)) = reading s
   \<and> decoding (fst (forEach P payload dets s)) = decoding s
   \<and> unhandled (fst (forEach P payload dets s)) = unhandled s
   \<and> (canvasRef s = None \<longrightarrow> canvasRef (fst (forEach P payload dets s)) = None)
   \<and> (mounted (fst (forEach P payload dets s)) \<longrightarrow> mounted s)"
proof (induction dets arbitrary: s)
  case Nil
  show ?case by simp
next
  case (Cons det dets)
  show ?case
  proof (cases rule: on_detection_kinds [of P payload det])
    case throws
    then show ?thesis by simp
  next
    case skips
    with Cons.IH [of s] show ?thesis by simp
  next
    case (adds c eid)
    let ?s = "setAlerts (add_alert P payload c eid) s"
    have "canvasRef s = None \<longrightarrow> canvasRef ?s = None" and "mounted ?s \<longrightarrow> mounted s"
      by (simp_all add: setAlerts_unmounts)
    moreover from adds have "forEach P payload (det # dets) s = forEach P payload dets ?s"
      by simp
    ultimately show ?thesis
      using Cons.IH [of ?s] by (auto simp: setAlerts_keeps)
  qed
qed

lemma forEach_classes_mono:
  "class_name ` set (alerts s) \<subseteq> class_name ` set (alerts (fst (forEach P payload dets s)))"
proof (induction dets arbitrary: s)
  case Nil
  show ?case by simp
next
  case (Cons det dets)
  show ?case
  proof (cases rule: on_detection_kinds [of P payload det])
    case throws
    then show ?thesis by simp
  next
    case skips
    with Cons.IH [of s] show ?thesis by simp
  next
    case (adds c eid)
    with Cons.IH [of "setAlerts (add_alert P payload c eid) s"]
      setAlerts_add_classes [of s P payload c eid]
    show ?thesis by auto
  qed
qed

lemma forEach_distinct:
  "distinct (map class_name (alerts s)) \<Longrightarrow>
     distinct (map class_name (alerts (fst (forEach P payload dets s))))"
proof (induction dets arbitrary: s)
  case Nil
  then show ?case by simp
next
  case (Cons det dets)
  show ?case
  proof (cases rule: on_detection_kinds [of P payload det])
    case throws
    with Cons.prems show ?thesis by simp
  next
    case skips
    with Cons show ?thesis by simp
  next
    case (adds c eid)
    with Cons.IH [of "setAlerts (add_alert P payload c eid) s"] Cons.prems show ?thesis
      by (simp add: setAlerts_add_distinct)
  qed
qed

text \<open>
  A state that is unmounted, or has every class the loop reached on a run that kept the
  component, comes out of the loop as it went in, and the loop ends the same way.
\<close>

lemma forEach_again:
  assumes "mounted q \<Longrightarrow>
             mounted (fst (forEach P payload dets s))
             \<and> class_name ` set (alerts (fst (forEach P payload dets s)))
                 \<subseteq> class_name ` set (alerts q)"
  shows "forEach P payload dets q = (q, snd (forEach P payload dets s))"
  using assms
proof (induction dets arbitrary: s)
  case Nil
  show ?case by simp
next
  case (Cons det dets)
  show ?case
  proof (cases rule: on_detection_kinds [of P payload det])
    case throws
    then show ?thesis by simp
  next
    case skips
    with Cons show ?thesis by simp
  next
    case (adds c eid)
    let ?f = "add_alert P payload c eid"
    let ?s = "setAlerts ?f s"
    from adds have step: "forEach P payload (det # dets) s = forEach P payload dets ?s"
      by simp
    have same: "setAlerts ?f q = q"
    proof (cases "mounted q")
      case False
      then show ?thesis by (rule setAlerts_unmounted)
    next
      case True
      with Cons.prems step have end_mounted: "mounted (fst (forEach P payload dets ?s))"
        and sub: "class_name ` set (alerts (fst (forEach P payload dets ?s)))
                    \<subseteq> class_name ` set (alerts q)"
        by simp_all
      from end_mounted have "mounted ?s"
        using forEach_keeps [of P payload dets ?s] by blast
      then obtain r where r: "?f (alerts s) = Inr r" "?s = s\<lparr>alerts := r\<rparr>"
        by (rule setAlerts_mounted)
      then have "c \<in> class_name ` set (alerts ?s)"
        by (simp add: add_alert_classes)
      with forEach_classes_mono [of ?s P payload dets] sub have "c \<in> class_name ` set (alerts q)"
        by blast
      then have "?f (alerts q) = Inr (alerts q)"
        by (auto simp: add_alert_def list_ex_iff)
      with True show ?thesis
        by (simp add: setAlerts_def)
    qed
    have "forEach P payload dets q = (q, snd (forEach P payload dets ?s))"
      by (rule Cons.IH) (use Cons.prems step in simp)
    with adds same step show ?thesis
      by simp
  qed
qed

text \<open>
  What a record does is settled by the record: it runs the loop over its detections, or
  it throws before the loop, or it reports no emergency.
\<close>

lemma ingest_kinds:
  obtains (iterates) dets where "\<not> nullish payload"
      and "truthy P (optprop (property payload ''alerts'') ''emergency_detected'')"
      and "property payload ''detections'' = Arr dets"
      and "\<forall>s. ingest P payload s = forEach P payload dets s"
  | (throws) "\<forall>s. ingest P payload s = (s, Some TypeError)"
  | (quiet) "\<forall>s. ingest P payload s = (s, None)"
proof (cases "nullish payload")
  case True
  then have "\<forall>s. ingest P payload s = (s, Some TypeError)"
    by (simp add: ingest_def getprop_def)
  then show ?thesis by (rule throws)
next
  case False
  show ?thesis
  proof (cases "truthy P (optprop (property payload ''alerts'') ''emergency_detected'')")
    case no: False
    with False have "\<forall>s. ingest P payload s = (s, None)"
      by (simp add: ingest_def getprop_def)
    then show ?thesis by (rule quiet)
  next
    case yes: True
    show ?thesis
    proof (cases "property payload ''detections''")
      case (Arr dets)
      with False yes have "\<forall>s. ingest P payload s = forEach P payload dets s"
        by (simp add: ingest_def getprop_def)
      with False yes Arr show ?thesis by (rule iterates)
    qed (use False yes in \<open>simp_all add: ingest_def getprop_def throws\<close>)
  qed
qed

lemma ingest_keeps:
  "painted (fst (ingest P payload s)) = painted s"
  "frames (fst (ingest P payload s)) = frames s"
  "systemStatus (fst (ingest P payload s)) = systemStatus s"
  "reading (fst (ingest P payload s)) = reading s"
  "decoding (fst (ingest P payload s)) = decoding s"
  "unhandled (fst (ingest P payload s)) = unhandled s"
  "canvasRef s = None \<Longrightarrow> canvasRef (fst (ingest P payload s)) = None"
  "mounted (fst (ingest P payload s)) \<Longrightarrow> mounted s"
  using forEach_keeps [of P payload _ s]
  by (cases rule: ingest_kinds [of payload P]; simp)+

lemma ingest_distinct:
  assumes "distinct (map class_name (alerts s))"
  shows "distinct (map class_name (alerts (fst (ingest P payload s))))"
  using assms by (cases rule: ingest_kinds [of payload P]) (simp_all add: forEach_distinct)

lemma ingest_again:
  "fst (ingest P payload (fst (ingest P payload s))) = fst (ingest P payload s)"
proof (cases rule: ingest_kinds [of payload P])
  case (iterates dets)
  let ?r = "forEach P payload dets s"
  have "forEach P payload dets (fst ?r) = (fst ?r, snd ?r)"
    by (rule forEach_again) simp
  then have "fst (forEach P payload dets (fst ?r)) = fst ?r"
    by simp
  with iterates(4) show ?thesis
    by simp
next
  case throws
  then show ?thesis by simp
next
  case quiet
  then show ?thesis by simp
qed


text \<open>Detections that create an alert, and detections that do nothing.\<close>

lemma eventId_of_Inr:
  assumes "ToString P (property payload ''frame_id'') = Inr f"
    and "ToString P (property payload ''unix_time'') = Inr u"
  shows "eventId_of P payload = Inr (''evt_'' @ f @ ''_'' @ u)"
  using assms by (simp add: eventId_of_def)

lemma new_alert_made:
  assumes "new_Date P (property payload ''timestamp'') = Inr date"
  shows "new_alert P payload c eid =
           Inr \<lparr>alert_id = eid, class_name = c, severity = ''HIGH'', location = ''ROAD 1'',
                time = Date_toLocaleTimeString P date, desc = c @ '' emergency triggered.''\<rparr>"
  using assms by (simp add: new_alert_def)

lemma setAlerts_add_present:
  "list_ex (\<lambda>a. class_name a = c) (alerts s) \<Longrightarrow> setAlerts (add_alert P payload c eid) s = s"
  by (simp add: setAlerts_def add_alert_def)

lemma setAlerts_add_absent:
  assumes "mounted s" and "\<not> list_ex (\<lambda>a. class_name a = c) (alerts s)"
    and "new_alert P payload c eid = Inr a"
  shows "setAlerts (add_alert P payload c eid) s = s\<lparr>alerts := a # alerts s\<rparr>"
  using assms by (simp add: setAlerts_def add_alert_def)

lemma setAlerts_add_twice:
  "setAlerts (add_alert P payload c eid) (setAlerts (add_alert P payload c eid) s)
     = setAlerts (add_alert P payload c eid) s"
proof (cases "mounted (setAlerts (add_alert P payload c eid) s)")
  case False
  then show ?thesis by (rule setAlerts_unmounted)
next
  case True
  then obtain r where r: "add_alert P payload c eid (alerts s) = Inr r"
      "setAlerts (add_alert P payload c eid) s = s\<lparr>alerts := r\<rparr>"
    by (rule setAlerts_mounted)
  from r(1) have "c \<in> class_name ` set r"
    by (simp add: add_alert_classes)
  then have "list_ex (\<lambda>a. class_name a = c) (alerts (s\<lparr>alerts := r\<rparr>))"
    by (auto simp: list_ex_iff)
  then have "setAlerts (add_alert P payload c eid) (s\<lparr>alerts := r\<rparr>) = s\<lparr>alerts := r\<rparr>"
    by (rule setAlerts_add_present)
  with r(2) show ?thesis by simp
qed

lemma on_detection_adds:
  assumes "getprop det ''class_name'' = Inr (Str c)" and "c \<in> set emergency_classes"
    and "eventId_of P payload = Inr eid"
  shows "on_detection P payload det s = Inr (setAlerts (add_alert P payload c eid) s)"
  using assms by (simp add: on_detection_def)

lemma on_detection_skips:
  assumes "\<not> nullish det"
    and "\<not> (\<exists>c. getprop det ''class_name'' = Inr (Str c) \<and> c \<in> set emergency_classes)"
  shows "on_detection P payload det s = Inr s"
  using assms
  by (cases "property det ''class_name''") (simp_all add: on_detection_def getprop_def)

text \<open>
  The loop over detections that are all objects (or any values but \<^verbatim>\<open>null\<close>), in a
  payload whose id and date can be made and in a mounted component: it does not throw,
  the alerts it creates go in front of the collection, each with the id of the payload,
  and every emergency class among the detections that was not active has its alert among
  them.
\<close>

lemma forEach_news:
  assumes "\<forall>d \<in> set dets. \<not> nullish d" and "eventId_of P payload = Inr eid"
    and "new_Date P (property payload ''timestamp'') = Inr date"
    and "mounted s"
  shows "\<exists>news. forEach P payload dets s = (s\<lparr>alerts := news @ alerts s\<rparr>, None)
           \<and> (\<forall>a \<in> set news. new_alert P payload (class_name a) eid = Inr a)
           \<and> (\<forall>d \<in> set dets. \<forall>c. getprop d ''class_name'' = Inr (Str c)
                  \<and> c \<in> set emergency_classes \<and> \<not> list_ex (\<lambda>a. class_name a = c) (alerts s)
                \<longrightarrow> c \<in> class_name ` set news)"
  using assms(1,4)
proof (induction dets arbitrary: s)
  case Nil
  show ?case by (rule exI [of _ "[]"]) simp
next
  case (Cons d ds)
  from Cons.prems have d: "\<not> nullish d" and ds: "\<forall>d \<in> set ds. \<not> nullish d"
    by simp_all
  show ?case
  proof (cases "\<exists>c. getprop d ''class_name'' = Inr (Str c) \<and> c \<in> set emergency_classes
                    \<and> \<not> list_ex (\<lambda>a. class_name a = c) (alerts s)")
    case True
    then obtain c where c: "getprop d ''class_name'' = Inr (Str c)" "c \<in> set emergency_classes"
        "\<not> list_ex (\<lambda>a. class_name a = c) (alerts s)"
      by blast
    from new_alert_made [OF assms(3)] obtain a where made: "new_alert P payload c eid = Inr a"
      by blast
    then have a: "class_name a = c"
      by (rule new_alert_Inr)
    let ?s = "s\<lparr>alerts := a # alerts s\<rparr>"
    from c assms(2) Cons.prems(2) made have one: "on_detection P payload d s = Inr ?s"
      by (simp add: on_detection_adds setAlerts_add_absent)
    from Cons.prems(2) have "mounted ?s"
      by simp
    from Cons.IH [OF ds this] obtain news
      where news: "forEach P payload ds ?s = (?s\<lparr>alerts := news @ alerts ?s\<rparr>, None)"
        "\<forall>b \<in> set news. new_alert P payload (class_name b) eid = Inr b"
        "\<forall>d' \<in> set ds. \<forall>c'. getprop d' ''class_name'' = Inr (Str c')
            \<and> c' \<in> set emergency_classes \<and> \<not> list_ex (\<lambda>b. class_name b = c') (alerts ?s)
          \<longrightarrow> c' \<in> class_name ` set news"
      by blast
    have "forEach P payload (d # ds) s = (s\<lparr>alerts := (news @ [a]) @ alerts s\<rparr>, None)"
      using one news(1) by simp
    moreover have "\<forall>b \<in> set (news @ [a]). new_alert P payload (class_name b) eid = Inr b"
      using news(2) made a by auto
    moreover have "c' \<in> class_name ` set (news @ [a])"
      if "d' \<in> set (d # ds)" and "getprop d' ''class_name'' = Inr (Str c')"
        and "c' \<in> set emergency_classes" and "\<not> list_ex (\<lambda>b. class_name b = c') (alerts s)"
      for d' c'
    proof (cases "c' = c")
      case True
      with a show ?thesis by force
    next
      case False
      with that(2) c(1) have "d' \<noteq> d"
        by auto
      with that(1) have "d' \<in> set ds"
        by simp
      moreover from False that(4) a have "\<not> list_ex (\<lambda>b. class_name b = c') (alerts ?s)"
        by auto
      ultimately have "c' \<in> class_name ` set news"
        using news(3) that(2,3) by blast
      then show ?thesis by auto
    qed
    ultimately show ?thesis
      by blast
  next
    case False
    have one: "on_detection P payload d s = Inr s"
    proof (cases "\<exists>c. getprop d ''class_name'' = Inr (Str c) \<and> c \<in> set emergency_classes")
      case no: False
      with d show ?thesis by (rule on_detection_skips)
    next
      case True
      then obtain c where c: "getprop d ''class_name'' = Inr (Str c)" "c \<in> set emergency_classes"
        by blast
      with False have "list_ex (\<lambda>a. class_name a = c) (alerts s)"
        by blast
      with c assms(2) show ?thesis
        by (simp add: on_detection_adds setAlerts_add_present)
    qed
    from Cons.IH [OF ds Cons.prems(2)] obtain news
      where news: "forEach P payload ds s = (s\<lparr>alerts := news @ alerts s\<rparr>, None)"
        "\<forall>b \<in> set news. new_alert P payload (class_name b) eid = Inr b"
        "\<forall>d' \<in> set ds. \<forall>c'. getprop d' ''class_name'' = Inr (Str c')
            \<and> c' \<in> set emergency_classes \<and> \<not> list_ex (\<lambda>b. class_name b = c') (alerts s)
          \<longrightarrow> c' \<in> class_name ` set news"
      by blast
    have "forEach P payload (d # ds) s = (s\<lparr>alerts := news @ alerts s\<rparr>, None)"
      using one news(1) by simp
    moreover have "c' \<in> class_name ` set news"
      if "d' \<in> set (d # ds)" and "getprop d' ''class_name'' = Inr (Str c')"
        and "c' \<in> set emergency_classes" and "\<not> list_ex (\<lambda>b. class_name b = c') (alerts s)"
      for d' c'
    proof (cases "d' = d")
      case True
      with that False show ?thesis by blast
    next
      case False
      with that(1) have "d' \<in> set ds"
        by simp
      with news(3) that(2,3,4) show ?thesis by blast
    qed
    ultimately show ?thesis
      using news(2) by blast
  qed
qed

text \<open>
  Whatever the record and the state, the alerts a record leaves are those it found with
  new ones in front, and each new one has the id of the record.
\<close>

lemma forEach_created:
  "\<exists>news. alerts (fst (forEach P payload dets s)) = news @ alerts s
     \<and> (\<forall>b \<in> set news. eventId_of P payload = Inr (alert_id b))"
proof (induction dets arbitrary: s)
  case Nil
  show ?case by simp
next
  case (Cons det dets)
  show ?case
  proof (cases rule: on_detection_kinds [of P payload det])
    case throws
    then show ?thesis by simp
  next
    case skips
    with Cons.IH [of s] show ?thesis by simp
  next
    case (adds c eid)
    let ?s = "setAlerts (add_alert P payload c eid) s"
    from Cons.IH [of ?s] obtain news
      where news: "alerts (fst (forEach P payload dets ?s)) = news @ alerts ?s"
        "\<forall>b \<in> set news. eventId_of P payload = Inr (alert_id b)"
      by blast
    from adds have step: "forEach P payload (det # dets) s = forEach P payload dets ?s"
      by simp
    from alerts_setAlerts_add [of P payload c eid s] consider "alerts ?s = alerts s"
      | a where "new_alert P payload c eid = Inr a" and "alerts ?s = a # alerts s"
      by blast
    then show ?thesis
    proof cases
      case 1
      with news step show ?thesis by auto
    next
      case (2 a)
      from 2(1) have "alert_id a = eid"
        by (rule new_alert_Inr)
      with adds(3) have "eventId_of P payload = Inr (alert_id a)"
        by simp
      with news 2(2) step
      have "alerts (fst (forEach P payload (det # dets) s)) = (news @ [a]) @ alerts s
            \<and> (\<forall>b \<in> set (news @ [a]). eventId_of P payload = Inr (alert_id b))"
        by simp
      then show ?thesis by blast
    qed
  qed
qed

lemma ingest_created:
  "\<exists>news. alerts (fst (ingest P payload s)) = news @ alerts s
     \<and> (\<forall>b \<in> set news. eventId_of P payload = Inr (alert_id b))"
proof (cases rule: ingest_kinds [of payload P])
  case (iterates dets)
  with forEach_created [of P payload dets s] show ?thesis by simp
next
  case throws
  then show ?thesis by simp
next
  case quiet
  then show ?thesis by simp
qed

subsection \<open>What each event leaves alone\<close>

lemma on_buffer_eq:
  "on_buffer P buf s =
     (case demux P buf of
        Inl e \<Rightarrow> reject e s
      | Inr (payload, img) \<Rightarrow>
          (case snd (ingest P payload s) of
             Some e \<Rightarrow> reject e (fst (ingest P payload s))
           | None \<Rightarrow> (fst (ingest P payload s))
                       \<lparr>decoding := decoding (fst (ingest P payload s)) @ [img]\<rparr>))"
  by (simp add: on_buffer_def split: sum.splits prod.splits option.splits)

lemma on_buffer_keeps:
  "painted (on_buffer P buf s) = painted s"
  "frames (on_buffer P buf s) = frames s"
  "systemStatus (on_buffer P buf s) = systemStatus s"
  "canvasRef s = None \<Longrightarrow> canvasRef (on_buffer P buf s) = None"
  by (simp_all add: on_buffer_eq reject_def ingest_keeps
        split: sum.splits prod.splits option.splits)

lemma alerts_on_buffer:
  "alerts (on_buffer P buf s) =
     (case demux P buf of
        Inl e \<Rightarrow> alerts s
      | Inr (payload, img) \<Rightarrow> alerts (fst (ingest P payload s)))"
  by (simp add: on_buffer_eq reject_def split: sum.splits prod.splits option.splits)

lemma mounted_on_buffer:
  "mounted (on_buffer P buf s) =
     (case demux P buf of
        Inl e \<Rightarrow> mounted s
      | Inr (payload, img) \<Rightarrow> mounted (fst (ingest P payload s)))"
  by (simp add: on_buffer_eq reject_def split: sum.splits prod.splits option.splits)

lemma fold_paint_unmounted: "canvasRef s = None \<Longrightarrow> fold paint bms s = s"
  by (induction bms) (simp_all add: paint_def)

lemma alerts_fold_paint: "alerts (fold paint bms s) = alerts s"
  by (induction bms arbitrary: s) (simp_all add: paint_def split: option.splits)

lemma step_distinct:
  assumes "distinct (map class_name (alerts s))"
  shows "distinct (map class_name (alerts (step P e s)))"
proof (cases e)
  case (Message d)
  with assms show ?thesis by (cases d) simp_all
next
  case (BufferRead i)
  with assms show ?thesis
    by (simp add: alerts_on_buffer ingest_distinct split: sum.splits prod.splits)
next
  case (ImageDecoded i r)
  with assms show ?thesis by (cases r) (simp_all add: reject_def)
next
  case (Click x)
  with assms show ?thesis
    by (simp add: alerts_handleResolve distinct_map_filter)
qed (use assms in \<open>simp_all add: onopen_def onclose_def setSystemStatus_def set_readyState_def
      animation_frame_def alerts_fold_paint unmount_def\<close>)

lemma run_distinct:
  "distinct (map class_name (alerts s)) \<Longrightarrow> distinct (map class_name (alerts (run P es s)))"
  unfolding run_def by (induction es arbitrary: s) (simp_all add: step_distinct)

lemma step_unmounted:
  assumes "canvasRef s = None"
  shows "canvasRef (step P e s) = None \<and> painted (step P e s) = painted s"
proof (cases e)
  case (Message d)
  with assms show ?thesis by (cases d) simp_all
next
  case (BufferRead i)
  with assms show ?thesis by (simp add: on_buffer_keeps)
next
  case (ImageDecoded i r)
  with assms show ?thesis by (cases r) (simp_all add: reject_def)
next
  case AnimationFrame
  with assms show ?thesis by (simp add: animation_frame_def fold_paint_unmounted)
next
  case (Click x)
  with assms show ?thesis
    by (simp add: handleResolve_def setAlerts_keeps setAlerts_unmounts split: option.splits)
qed (use assms in \<open>simp_all add: onopen_def onclose_def setSystemStatus_def set_readyState_def
      unmount_def\<close>)

lemma run_unmounted:
  "canvasRef s = None \<Longrightarrow> painted (run P es s) = painted s"
  unfolding run_def
proof (induction es arbitrary: s)
  case Nil
  show ?case by simp
next
  case (Cons e es)
  from Cons.prems have "canvasRef (step P e s) = None" and "painted (step P e s) = painted s"
    by (simp_all add: step_unmounted)
  with Cons.IH [of "step P e s"] show ?case by simp
qed

subsection \<open>One alert for each class\<close>

text \<open>
  C3. Whatever events the component has been through since it was mounted, no two of its
  alerts have the same class. An alert of a class that is already there is not added: the
  updater returns the collection it was given, and a detection of such a class leaves the
  component as it is (or throws, on a payload whose id cannot be turned into text). So a
  record with one detection of an active class changes nothing, the same record ingested
  a second time changes nothing, and a detection repeated within a record changes nothing
  the second time.
\<close>

theorem one_alert_per_class:
  "distinct (map class_name (alerts (run P es init)))
   \<and> (list_ex (\<lambda>a. class_name a = c) prev \<longrightarrow> add_alert P payload c eid prev = Inr prev)
   \<and> (getprop det ''class_name'' = Inr (Str c) \<and> list_ex (\<lambda>a. class_name a = c) (alerts s) \<longrightarrow>
        on_detection P payload det s = Inr s
        \<or> on_detection P payload det s = Inl TypeError)
   \<and> (property payload ''detections'' = Arr [det] \<and> getprop det ''class_name'' = Inr (Str c)
        \<and> list_ex (\<lambda>a. class_name a = c) (alerts s) \<longrightarrow> fst (ingest P payload s) = s)
   \<and> fst (ingest P payload (fst (ingest P payload s))) = fst (ingest P payload s)
   \<and> (on_detection P payload det s = Inr s' \<longrightarrow>
        on_detection P payload det s' = Inr s')"
proof -
  have a: "distinct (map class_name (alerts (run P es init)))"
    by (rule run_distinct) (simp add: init_def)
  have b: "on_detection P payload det s = Inr s
           \<or> on_detection P payload det s = Inl TypeError"
    if "getprop det ''class_name'' = Inr (Str c)"
      and "list_ex (\<lambda>a. class_name a = c) (alerts s)"
    using that
    by (cases rule: on_detection_kinds [of P payload det]) (simp_all add: setAlerts_add_present)
  have c: "fst (ingest P payload s) = s"
    if "property payload ''detections'' = Arr [det]"
      and "getprop det ''class_name'' = Inr (Str c)"
      and "list_ex (\<lambda>a. class_name a = c) (alerts s)"
  proof (cases rule: ingest_kinds [of payload P])
    case (iterates dets)
    with that(1) have "ingest P payload s = forEach P payload [det] s"
      by simp
    with b [OF that(2,3)] show ?thesis
      by auto
  next
    case throws
    then show ?thesis by simp
  next
    case quiet
    then show ?thesis by simp
  qed
  have d: "on_detection P payload det s' = Inr s'"
    if "on_detection P payload det s = Inr s'"
  proof (cases rule: on_detection_kinds [of P payload det])
    case throws
    with that show ?thesis by simp
  next
    case skips
    then show ?thesis by simp
  next
    case (adds c' eid')
    with that have "s' = setAlerts (add_alert P payload c' eid') s"
      by simp
    with adds show ?thesis by (simp add: setAlerts_add_twice)
  qed
  from a b c d show ?thesis
    by (simp add: add_alert_present ingest_again)
qed

theorem one_alert_per_class_witness:
  "distinct (map class_name (alerts (run example_platform
       [Open, Message (Blob fire_frame), BufferRead 0, Message (Blob fire_frame), BufferRead 0]
       init)))
   \<and> add_alert example_platform fire_payload ''Fire'' ''evt_7_1000'' [fire_alert]
       = Inr [fire_alert]
   \<and> on_detection example_platform fire_payload (Obj [(''class_name'', Str ''Fire'')])
         fire_state = Inr fire_state
   \<and> fst (ingest example_platform fire_payload fire_state) = fire_state"
proof -
  let ?det = "Obj [(''class_name'', Str ''Fire'')] :: string jsval"
  have active: "list_ex (\<lambda>a. class_name a = ''Fire'') [fire_alert]"
    "list_ex (\<lambda>a. class_name a = ''Fire'') (alerts fire_state)"
    by (simp_all add: fire_alert_fields fire_state_fields)
  have det: "getprop ?det ''class_name'' = Inr (Str ''Fire'')"
    by (simp add: getprop_def)
  have dets: "property fire_payload ''detections'' = Arr [?det]"
    by (simp add: fire_payload_def)
  have no_throw: "on_detection example_platform fire_payload ?det fire_state \<noteq> Inl TypeError"
    by (simp add: on_detection_def det emergency_classes_def eventId_of_def fire_payload_def)
  show ?thesis
    using one_alert_per_class
            [of example_platform
               "[Open, Message (Blob fire_frame), BufferRead 0,
                 Message (Blob fire_frame), BufferRead 0]"
               "''Fire''" "[fire_alert]" fire_payload "''evt_7_1000''" ?det fire_state]
          active det dets no_throw
    by simp
qed

subsection \<open>A new alert\<close>











subsection \<open>Two classes in one record\<close>

lemma json_parse_two: "json_parse two_text = Some two_payload"
  by code_simp

lemma demux_two_frame: "demux example_platform two_frame = Inr (two_payload, jpeg)"
proof -
  have "length two_text = 127"
    by (simp add: two_text_def)
  then have "demux example_platform ([0, 0, 0, 127] @ map of_char two_text @ jpeg) =
          (case JSON_parse example_platform
                  (TextDecoder_decode example_platform (map of_char two_text)) of
             None \<Rightarrow> Inl SyntaxError
           | Some v \<Rightarrow> Inr (v, jpeg))"
    by (intro demux_frame) (simp_all add: getUint32_def)
  then show ?thesis
    by (simp add: two_frame_def decode_example parse_example json_parse_two)
qed

text \<open>
  C8. The id of an alert is made from the record alone, \<^verbatim>\<open>evt_\<close>\<open>f\<close>\<^verbatim>\<open>_\<close>\<open>u\<close> for a
  \<^verbatim>\<open>frame_id\<close> and a \<^verbatim>\<open>unix_time\<close> with the texts \<open>f\<close> and \<open>u\<close>. Whatever the record and
  the component, the alerts a record creates go in front of the collection and all have
  the id of the record; resolving that id leaves what a resolve before the record would
  have left, so it removes all of them at once. When the record has detections of two
  different emergency classes, neither of them active, among any number of detections
  none of which is \<^verbatim>\<open>null\<close>, in a mounted component and with a \<^verbatim>\<open>timestamp\<close> that makes a
  date: the handler does not throw, the component stays, the alerts created include two
  different ones of the two classes, both with that id, and after the resolve no alert of
  either class is left.
\<close>

theorem two_classes_one_id:
  "\<exists>news. alerts (fst (ingest P payload s)) = news @ alerts s
     \<and> (\<forall>b \<in> set news. eventId_of P payload = Inr (alert_id b))
     \<and> (ToString P (property payload ''frame_id'') = Inr f
          \<and> ToString P (property payload ''unix_time'') = Inr u
        \<longrightarrow> eventId_of P payload = Inr (''evt_'' @ f @ ''_'' @ u))
     \<and> (eventId_of P payload = Inr eid \<longrightarrow>
          filter (\<lambda>a. alert_id a \<noteq> eid) (alerts (fst (ingest P payload s)))
            = filter (\<lambda>a. alert_id a \<noteq> eid) (alerts s)
          \<and> (mounted (fst (ingest P payload s)) \<longrightarrow>
               alerts (handleResolve eid (fst (ingest P payload s)))
                 = filter (\<lambda>a. alert_id a \<noteq> eid) (alerts s))
          \<and> (demux P buf = Inr (payload, img) \<and> mounted (on_buffer P buf s) \<longrightarrow>
               alerts (handleResolve eid (on_buffer P buf s))
                 = filter (\<lambda>a. alert_id a \<noteq> eid) (alerts s)))
     \<and> (\<not> nullish payload
          \<and> truthy P (optprop (property payload ''alerts'') ''emergency_detected'')
          \<and> property payload ''detections'' = Arr dets
          \<and> (\<forall>d \<in> set dets. \<not> nullish d) \<and> det1 \<in> set dets \<and> det2 \<in> set dets
          \<and> getprop det1 ''class_name'' = Inr (Str c1) \<and> c1 \<in> set emergency_classes
          \<and> getprop det2 ''class_name'' = Inr (Str c2) \<and> c2 \<in> set emergency_classes
          \<and> c1 \<noteq> c2
          \<and> eventId_of P payload = Inr eid
          \<and> new_Date P (property payload ''timestamp'') = Inr date
          \<and> mounted s
          \<and> \<not> list_ex (\<lambda>a. class_name a = c1) (alerts s)
          \<and> \<not> list_ex (\<lambda>a. class_name a = c2) (alerts s)
        \<longrightarrow> snd (ingest P payload s) = None \<and> mounted (fst (ingest P payload s))
            \<and> (\<exists>a1 \<in> set news. \<exists>a2 \<in> set news. a1 \<noteq> a2
                  \<and> class_name a1 = c1 \<and> class_name a2 = c2
                  \<and> alert_id a1 = eid \<and> alert_id a2 = eid)
            \<and> (\<forall>a \<in> set (alerts (handleResolve eid (fst (ingest P payload s)))).
                  class_name a \<noteq> c1 \<and> class_name a \<noteq> c2))"
proof -
  let ?r = "fst (ingest P payload s)"
  from ingest_created [of P payload s] obtain news
    where news: "alerts ?r = news @ alerts s"
      "\<forall>b \<in> set news. eventId_of P payload = Inr (alert_id b)"
    by blast
  have gone: "filter (\<lambda>a. alert_id a \<noteq> eid) (alerts ?r) = filter (\<lambda>a. alert_id a \<noteq> eid) (alerts s)"
    if "eventId_of P payload = Inr eid"
  proof -
    from that news(2) have "\<forall>b \<in> set news. alert_id b = eid"
      by auto
    then have "filter (\<lambda>a. alert_id a \<noteq> eid) news = []"
      by (simp add: filter_empty_conv)
    with news(1) show ?thesis
      by simp
  qed
  have resolved: "alerts (handleResolve eid ?r) = filter (\<lambda>a. alert_id a \<noteq> eid) (alerts s)"
    if "eventId_of P payload = Inr eid" and "mounted ?r"
    using that gone by (simp add: alerts_handleResolve)
  have framed: "alerts (handleResolve eid (on_buffer P buf s))
                  = filter (\<lambda>a. alert_id a \<noteq> eid) (alerts s)"
    if "eventId_of P payload = Inr eid" and "demux P buf = Inr (payload, img)"
      and "mounted (on_buffer P buf s)"
    using that gone by (simp add: alerts_handleResolve alerts_on_buffer)
  have both: "snd (ingest P payload s) = None \<and> mounted ?r
        \<and> (\<exists>a1 \<in> set news. \<exists>a2 \<in> set news. a1 \<noteq> a2
              \<and> class_name a1 = c1 \<and> class_name a2 = c2
              \<and> alert_id a1 = eid \<and> alert_id a2 = eid)
        \<and> (\<forall>a \<in> set (alerts (handleResolve eid ?r)). class_name a \<noteq> c1 \<and> class_name a \<noteq> c2)"
    if whole: "\<not> nullish payload"
        "truthy P (optprop (property payload ''alerts'') ''emergency_detected'')"
        "property payload ''detections'' = Arr dets"
      and dets: "\<forall>d \<in> set dets. \<not> nullish d" "det1 \<in> set dets" "det2 \<in> set dets"
      and c1: "getprop det1 ''class_name'' = Inr (Str c1)" "c1 \<in> set emergency_classes"
      and c2: "getprop det2 ''class_name'' = Inr (Str c2)" "c2 \<in> set emergency_classes"
      and differ: "c1 \<noteq> c2"
      and eid: "eventId_of P payload = Inr eid"
      and date: "new_Date P (property payload ''timestamp'') = Inr date"
      and s: "mounted s" "\<not> list_ex (\<lambda>a. class_name a = c1) (alerts s)"
        "\<not> list_ex (\<lambda>a. class_name a = c2) (alerts s)"
  proof -
    from forEach_news [OF dets(1) eid date s(1)] obtain news'
      where news': "forEach P payload dets s = (s\<lparr>alerts := news' @ alerts s\<rparr>, None)"
        "\<forall>b \<in> set news'. new_alert P payload (class_name b) eid = Inr b"
        "\<forall>d \<in> set dets. \<forall>c. getprop d ''class_name'' = Inr (Str c)
            \<and> c \<in> set emergency_classes \<and> \<not> list_ex (\<lambda>a. class_name a = c) (alerts s)
          \<longrightarrow> c \<in> class_name ` set news'"
      by blast
    from whole news'(1) have result: "ingest P payload s = (s\<lparr>alerts := news' @ alerts s\<rparr>, None)"
      by (simp add: ingest_def getprop_def)
    with news(1) have same: "news' = news"
      by simp
    from news'(3) dets(2) c1 s(2) have "c1 \<in> class_name ` set news'"
      by blast
    then obtain a1 where a1: "a1 \<in> set news" "class_name a1 = c1"
      using same by auto
    from news'(3) dets(3) c2 s(3) have "c2 \<in> class_name ` set news'"
      by blast
    then obtain a2 where a2: "a2 \<in> set news" "class_name a2 = c2"
      using same by auto
    from a1 a2 differ have "a1 \<noteq> a2"
      by auto
    moreover from a1(1) a2(1) news(2) have "eventId_of P payload = Inr (alert_id a1)"
        "eventId_of P payload = Inr (alert_id a2)"
      by blast+
    with eid have "alert_id a1 = eid" "alert_id a2 = eid"
      by simp_all
    ultimately have two: "\<exists>a1 \<in> set news. \<exists>a2 \<in> set news. a1 \<noteq> a2
              \<and> class_name a1 = c1 \<and> class_name a2 = c2
              \<and> alert_id a1 = eid \<and> alert_id a2 = eid"
      using a1 a2 by blast
    from result s(1) have kept: "snd (ingest P payload s) = None" "mounted ?r"
      by simp_all
    from resolved [OF eid kept(2)] s(2,3)
    have "\<forall>a \<in> set (alerts (handleResolve eid ?r)). class_name a \<noteq> c1 \<and> class_name a \<noteq> c2"
      by (auto simp: list_ex_iff)
    with two kept show ?thesis
      by blast
  qed
  have id: "eventId_of P payload = Inr (''evt_'' @ f @ ''_'' @ u)"
    if "ToString P (property payload ''frame_id'') = Inr f"
      and "ToString P (property payload ''unix_time'') = Inr u"
    using that by (rule eventId_of_Inr)
  from news gone resolved framed id
  have general: "alerts ?r = news @ alerts s
     \<and> (\<forall>b \<in> set news. eventId_of P payload = Inr (alert_id b))
     \<and> (ToString P (property payload ''frame_id'') = Inr f
          \<and> ToString P (property payload ''unix_time'') = Inr u
        \<longrightarrow> eventId_of P payload = Inr (''evt_'' @ f @ ''_'' @ u))
     \<and> (eventId_of P payload = Inr eid \<longrightarrow>
          filter (\<lambda>a. alert_id a \<noteq> eid) (alerts ?r) = filter (\<lambda>a. alert_id a \<noteq> eid) (alerts s)
          \<and> (mounted ?r \<longrightarrow>
               alerts (handleResolve eid ?r) = filter (\<lambda>a. alert_id a \<noteq> eid) (alerts s))
          \<and> (demux P buf = Inr (payload, img) \<and> mounted (on_buffer P buf s) \<longrightarrow>
               alerts (handleResolve eid (on_buffer P buf s))
                 = filter (\<lambda>a. alert_id a \<noteq> eid) (alerts s)))"
    by blast
  from general both show ?thesis
    by (intro exI [of _ news]) blast
qed

theorem two_classes_one_id_witness:
  "map alert_id (alerts (on_buffer example_platform two_frame init)) = [''evt_8_1001'', ''evt_8_1001'']
   \<and> map class_name (alerts (on_buffer example_platform two_frame init)) = [''Fall'', ''Fire'']
   \<and> mounted (on_buffer example_platform two_frame init)
   \<and> alerts (handleResolve ''evt_8_1001'' (on_buffer example_platform two_frame init)) = []"
proof -
  let ?fire = "Obj [(''class_name'', Str ''Fire'')] :: string jsval"
  let ?fall = "Obj [(''class_name'', Str ''Fall'')] :: string jsval"
  let ?alert = "\<lambda>c. \<lparr>alert_id = ''evt_8_1001'', class_name = c, severity = ''HIGH'',
                      location = ''ROAD 1'', time = ''Invalid Date'',
                      desc = c @ '' emergency triggered.''\<rparr>"
  let ?r = "fst (ingest example_platform two_payload init)"
  have whole: "\<not> nullish two_payload"
    "truthy example_platform (optprop (property two_payload ''alerts'') ''emergency_detected'')"
    "property two_payload ''detections'' = Arr [?fire, ?fall]"
    by (simp_all add: two_payload_def optprop_def)
  have members: "\<forall>d \<in> set [?fire, ?fall]. \<not> nullish d" "?fire \<in> set [?fire, ?fall]"
    "?fall \<in> set [?fire, ?fall]"
    by simp_all
  have dets: "getprop ?fire ''class_name'' = Inr (Str ''Fire'')"
    "getprop ?fall ''class_name'' = Inr (Str ''Fall'')"
    by (simp_all add: getprop_def)
  have classes: "''Fire'' \<in> set emergency_classes" "''Fall'' \<in> set emergency_classes"
    "''Fire'' \<noteq> ''Fall''"
    by (simp_all add: emergency_classes_def)
  have eid: "eventId_of example_platform two_payload = Inr ''evt_8_1001''"
    by (simp add: eventId_of_def two_payload_def example_platform_def)
  have date: "new_Date example_platform (property two_payload ''timestamp'') = Inr Undefined"
    by (simp add: two_payload_def new_Date_def)
  have start: "mounted init" "\<not> list_ex (\<lambda>a. class_name a = ''Fire'') (alerts init)"
    "\<not> list_ex (\<lambda>a. class_name a = ''Fall'') (alerts init)"
    by (simp_all add: init_fields)
  note inst = two_classes_one_id
         [of example_platform two_payload init "''8''" "''1001''" "''evt_8_1001''" two_frame
            jpeg "[?fire, ?fall]" ?fire ?fall "''Fire''" "''Fall''" Undefined]
  from inst whole members dets classes eid date start have kept: "mounted ?r"
    by blast
  with demux_two_frame have mounted: "mounted (on_buffer example_platform two_frame init)"
    by (simp add: mounted_on_buffer)
  from inst eid demux_two_frame mounted
  have resolved: "alerts (handleResolve ''evt_8_1001'' (on_buffer example_platform two_frame init))
      = filter (\<lambda>a. alert_id a \<noteq> ''evt_8_1001'') (alerts init)"
    by blast
  have made: "new_alert example_platform two_payload c ''evt_8_1001'' = Inr (?alert c)" for c
    by (simp add: new_alert_def new_Date_def two_payload_def example_platform_def)
  have "on_detection example_platform two_payload ?fire init
          = Inr (setAlerts (add_alert example_platform two_payload ''Fire'' ''evt_8_1001'') init)"
    using dets(1) classes(1) eid by (rule on_detection_adds)
  also have "setAlerts (add_alert example_platform two_payload ''Fire'' ''evt_8_1001'') init
               = init\<lparr>alerts := ?alert ''Fire'' # alerts init\<rparr>"
    using start(1,2) made by (rule setAlerts_add_absent)
  finally have one: "on_detection example_platform two_payload ?fire init
                       = Inr (init\<lparr>alerts := [?alert ''Fire'']\<rparr>)"
    by (simp add: init_fields)
  let ?s = "init\<lparr>alerts := [?alert ''Fire'']\<rparr>"
  have "on_detection example_platform two_payload ?fall ?s
          = Inr (setAlerts (add_alert example_platform two_payload ''Fall'' ''evt_8_1001'') ?s)"
    using dets(2) classes(2) eid by (rule on_detection_adds)
  also have "setAlerts (add_alert example_platform two_payload ''Fall'' ''evt_8_1001'') ?s
               = ?s\<lparr>alerts := ?alert ''Fall'' # alerts ?s\<rparr>"
    by (rule setAlerts_add_absent [OF _ _ made]) (simp_all add: init_fields)
  finally have two: "on_detection example_platform two_payload ?fall ?s
                       = Inr (init\<lparr>alerts := [?alert ''Fall'', ?alert ''Fire'']\<rparr>)"
    by simp
  from whole one two
  have "ingest example_platform two_payload init
          = (init\<lparr>alerts := [?alert ''Fall'', ?alert ''Fire'']\<rparr>, None)"
    by (simp add: ingest_def getprop_def)
  with demux_two_frame have "alerts (on_buffer example_platform two_frame init)
      = [?alert ''Fall'', ?alert ''Fire'']"
    by (simp add: alerts_on_buffer)
  with resolved mounted show ?thesis
    by (simp add: init_fields)
qed

subsection \<open>After the socket has closed\<close>

text \<open>
  The alert logic reads the alerts, whether the component is mounted and, to empty it, the
  ref of the canvas; it reads nothing of the connection.
\<close>

lemma setAlerts_sim:
  assumes "alerts s = alerts q" and "mounted s = mounted q" and "canvasRef s = canvasRef q"
  shows "alerts (setAlerts f s) = alerts (setAlerts f q)"
    and "mounted (setAlerts f s) = mounted (setAlerts f q)"
    and "canvasRef (setAlerts f s) = canvasRef (setAlerts f q)"
  using assms by (simp_all add: setAlerts_def unmount_def split: sum.splits)

lemma forEach_sim:
  assumes "alerts s = alerts q" and "mounted s = mounted q" and "canvasRef s = canvasRef q"
  shows "alerts (fst (forEach P payload dets s)) = alerts (fst (forEach P payload dets q))
   \<and> mounted (fst (forEach P payload dets s)) = mounted (fst (forEach P payload dets q))
   \<and> canvasRef (fst (forEach P payload dets s)) = canvasRef (fst (forEach P payload dets q))
   \<and> snd (forEach P payload dets s) = snd (forEach P payload dets q)"
  using assms
proof (induction dets arbitrary: s q)
  case Nil
  then show ?case by simp
next
  case (Cons det dets)
  show ?case
  proof (cases rule: on_detection_kinds [of P payload det])
    case throws
    with Cons.prems show ?thesis by simp
  next
    case skips
    with Cons.IH [OF Cons.prems] show ?thesis by simp
  next
    case (adds c eid)
    let ?f = "add_alert P payload c eid"
    have "alerts (setAlerts ?f s) = alerts (setAlerts ?f q)"
      and "mounted (setAlerts ?f s) = mounted (setAlerts ?f q)"
      and "canvasRef (setAlerts ?f s) = canvasRef (setAlerts ?f q)"
      using Cons.prems by (rule setAlerts_sim)+
    from Cons.IH [OF this] adds show ?thesis by simp
  qed
qed

lemma ingest_sim:
  assumes "alerts s = alerts q" and "mounted s = mounted q" and "canvasRef s = canvasRef q"
  shows "alerts (fst (ingest P payload s)) = alerts (fst (ingest P payload q))"
    and "mounted (fst (ingest P payload s)) = mounted (fst (ingest P payload q))"
    and "canvasRef (fst (ingest P payload s)) = canvasRef (fst (ingest P payload q))"
    and "snd (ingest P payload s) = snd (ingest P payload q)"
  using forEach_sim [OF assms, of P payload] assms
  by (cases rule: ingest_kinds [of payload P]; simp)+

lemma on_buffer_sim:
  assumes "alerts s = alerts q" and "mounted s = mounted q" and "canvasRef s = canvasRef q"
    and "decoding s = decoding q" and "unhandled s = unhandled q" and "frames s = frames q"
    and "painted s = painted q" and "reading s = reading q"
  shows "alerts (on_buffer P buf s) = alerts (on_buffer P buf q)
   \<and> mounted (on_buffer P buf s) = mounted (on_buffer P buf q)
   \<and> canvasRef (on_buffer P buf s) = canvasRef (on_buffer P buf q)
   \<and> decoding (on_buffer P buf s) = decoding (on_buffer P buf q)
   \<and> unhandled (on_buffer P buf s) = unhandled (on_buffer P buf q)
   \<and> frames (on_buffer P buf s) = frames (on_buffer P buf q)
   \<and> painted (on_buffer P buf s) = painted (on_buffer P buf q)
   \<and> reading (on_buffer P buf s) = reading (on_buffer P buf q)"
proof (cases "demux P buf")
  case (Inl e)
  with assms show ?thesis by (simp add: on_buffer_eq reject_def)
next
  case (Inr pair)
  obtain payload img where pair: "pair = (payload, img)"
    by (cases pair)
  have sim: "alerts (fst (ingest P payload s)) = alerts (fst (ingest P payload q))"
    "mounted (fst (ingest P payload s)) = mounted (fst (ingest P payload q))"
    "canvasRef (fst (ingest P payload s)) = canvasRef (fst (ingest P payload q))"
    "snd (ingest P payload s) = snd (ingest P payload q)"
    using assms(1,2,3) by (rule ingest_sim)+
  with Inr pair assms(4-) show ?thesis
    by (cases "snd (ingest P payload q)") (simp_all add: on_buffer_eq reject_def ingest_keeps)
qed

lemma close_fields:
  "systemStatus (step P Close s) = (if mounted s then ''Disconnected'' else systemStatus s)"
  "reading (step P Close s) = reading s" "decoding (step P Close s) = decoding s"
  "frames (step P Close s) = frames s" "canvasRef (step P Close s) = canvasRef s"
  "painted (step P Close s) = painted s" "alerts (step P Close s) = alerts s"
  "mounted (step P Close s) = mounted s" "unhandled (step P Close s) = unhandled s"
  by (simp_all add: onclose_def setSystemStatus_def set_readyState_def)

lemma buffer_after_close:
  "alerts (step P (BufferRead i) (step P Close s)) = alerts (step P (BufferRead i) s)
   \<and> mounted (step P (BufferRead i) (step P Close s)) = mounted (step P (BufferRead i) s)
   \<and> canvasRef (step P (BufferRead i) (step P Close s)) = canvasRef (step P (BufferRead i) s)
   \<and> decoding (step P (BufferRead i) (step P Close s)) = decoding (step P (BufferRead i) s)
   \<and> unhandled (step P (BufferRead i) (step P Close s)) = unhandled (step P (BufferRead i) s)
   \<and> frames (step P (BufferRead i) (step P Close s)) = frames (step P (BufferRead i) s)
   \<and> painted (step P (BufferRead i) (step P Close s)) = painted (step P (BufferRead i) s)
   \<and> reading (step P (BufferRead i) (step P Close s)) = reading (step P (BufferRead i) s)"
proof (cases "i < length (reading s)")
  case False
  then show ?thesis
    by (simp add: close_fields del: step.simps(2))
next
  case True
  let ?rest = "take_out i (reading s)"
  have "step P (BufferRead i) (step P Close s)
          = on_buffer P (reading s ! i) ((step P Close s)\<lparr>reading := ?rest\<rparr>)"
    using True by (simp add: close_fields del: step.simps(2))
  moreover have "step P (BufferRead i) s = on_buffer P (reading s ! i) (s\<lparr>reading := ?rest\<rparr>)"
    using True by simp
  moreover have "alerts (on_buffer P (reading s ! i) ((step P Close s)\<lparr>reading := ?rest\<rparr>))
        = alerts (on_buffer P (reading s ! i) (s\<lparr>reading := ?rest\<rparr>))
   \<and> mounted (on_buffer P (reading s ! i) ((step P Close s)\<lparr>reading := ?rest\<rparr>))
        = mounted (on_buffer P (reading s ! i) (s\<lparr>reading := ?rest\<rparr>))
   \<and> canvasRef (on_buffer P (reading s ! i) ((step P Close s)\<lparr>reading := ?rest\<rparr>))
        = canvasRef (on_buffer P (reading s ! i) (s\<lparr>reading := ?rest\<rparr>))
   \<and> decoding (on_buffer P (reading s ! i) ((step P Close s)\<lparr>reading := ?rest\<rparr>))
        = decoding (on_buffer P (reading s ! i) (s\<lparr>reading := ?rest\<rparr>))
   \<and> unhandled (on_buffer P (reading s ! i) ((step P Close s)\<lparr>reading := ?rest\<rparr>))
        = unhandled (on_buffer P (reading s ! i) (s\<lparr>reading := ?rest\<rparr>))
   \<and> frames (on_buffer P (reading s ! i) ((step P Close s)\<lparr>reading := ?rest\<rparr>))
        = frames (on_buffer P (reading s ! i) (s\<lparr>reading := ?rest\<rparr>))
   \<and> painted (on_buffer P (reading s ! i) ((step P Close s)\<lparr>reading := ?rest\<rparr>))
        = painted (on_buffer P (reading s ! i) (s\<lparr>reading := ?rest\<rparr>))
   \<and> reading (on_buffer P (reading s ! i) ((step P Close s)\<lparr>reading := ?rest\<rparr>))
        = reading (on_buffer P (reading s ! i) (s\<lparr>reading := ?rest\<rparr>))"
    by (rule on_buffer_sim) (simp_all add: close_fields del: step.simps(2))
  ultimately show ?thesis
    by (simp only:)
qed

lemma buffer_decodes:
  assumes "i < length (reading s)" and "demux P (reading s ! i) = Inr (payload, img)"
    and "snd (ingest P payload (s\<lparr>reading := take_out i (reading s)\<rparr>)) = None"
  shows "decoding (step P (BufferRead i) s) = decoding s @ [img]"
  using assms by (simp add: on_buffer_eq ingest_keeps)

lemma bitmap_queued:
  assumes "i < length (decoding s)"
  shows "frames (step P (ImageDecoded i (Some bm)) s) = frames s @ [bm]"
    and "canvasRef (step P (ImageDecoded i (Some bm)) s) = canvasRef s"
    and "painted (step P (ImageDecoded i (Some bm)) s) = painted s"
  using assms by simp_all

lemma animation_frame_paints:
  assumes "canvasRef s = Some c"
  shows "painted (step P AnimationFrame s) = painted s @ frames s"
proof -
  from assms have "canvasRef (s\<lparr>frames := []\<rparr>) = Some c"
    by simp
  then have "painted (fold paint (frames s) (s\<lparr>frames := []\<rparr>))
               = painted (s\<lparr>frames := []\<rparr>) @ frames s"
    by (rule painted_fold_paint)
  then show ?thesis
    by (simp add: animation_frame_def)
qed

lemma decode_after_close_painted:
  assumes "canvasRef s = Some c" and "i < length (decoding s)"
  shows "painted (run P [Close, ImageDecoded i (Some bm), AnimationFrame] s)
           = painted s @ frames s @ [bm]"
proof -
  let ?closed = "step P Close s"
  let ?queued = "step P (ImageDecoded i (Some bm)) ?closed"
  from assms(2) have i: "i < length (decoding ?closed)"
    by (simp only: close_fields)
  from assms(1) have "canvasRef ?queued = Some c"
    by (simp only: bitmap_queued [OF i] close_fields)
  then have "painted (step P AnimationFrame ?queued) = painted ?queued @ frames ?queued"
    by (rule animation_frame_paints)
  also have "\<dots> = painted s @ frames s @ [bm]"
    by (simp only: bitmap_queued [OF i] close_fields)
  finally show ?thesis
    by (simp add: run_def del: step.simps)
qed

text \<open>
  C7. The close handler records the status and does nothing else: the handlers that wait
  for a buffer or a bitmap keep waiting, the paints requested stay requested, and the
  message handler never looks at the state of the connection, at none of its stages. A
  message that arrives is given to the reader; a handler whose buffer arrives after the
  close does what it would have done before it, to the alerts as to the decoder, and asks
  for the decoding of the image of a frame that ingests without an exception; a bitmap
  that arrives is given to the next animation frame, whatever the status; and the
  animation frame paints what it was given, as long as the canvas is there. So an image
  decoded after the close is painted. What stops the painting is the unmount, which is
  also where the component closes an open socket itself: the callback finds no canvas and
  returns, and from then on nothing is painted whatever happens.
\<close>

theorem close_cancels_nothing:
  "systemStatus (step P Close s) = (if mounted s then ''Disconnected'' else systemStatus s)
   \<and> reading (step P Close s) = reading s \<and> decoding (step P Close s) = decoding s
   \<and> frames (step P Close s) = frames s \<and> canvasRef (step P Close s) = canvasRef s
   \<and> painted (step P Close s) = painted s \<and> alerts (step P Close s) = alerts s
   \<and> mounted (step P Close s) = mounted s
   \<and> step P (Message (Blob bytes)) s = s\<lparr>reading := reading s @ [bytes]\<rparr>
   \<and> alerts (step P (BufferRead i) (step P Close s)) = alerts (step P (BufferRead i) s)
   \<and> decoding (step P (BufferRead i) (step P Close s)) = decoding (step P (BufferRead i) s)
   \<and> unhandled (step P (BufferRead i) (step P Close s)) = unhandled (step P (BufferRead i) s)
   \<and> frames (step P (BufferRead i) (step P Close s)) = frames (step P (BufferRead i) s)
   \<and> canvasRef (step P (BufferRead i) (step P Close s)) = canvasRef (step P (BufferRead i) s)
   \<and> (i < length (reading s) \<and> demux P (reading s ! i) = Inr (payload, img)
        \<and> snd (ingest P payload (s\<lparr>reading := take_out i (reading s)\<rparr>)) = None
      \<longrightarrow> decoding (step P (BufferRead i) s) = decoding s @ [img])
   \<and> (j < length (decoding s) \<longrightarrow>
        frames (step P (ImageDecoded j (Some bm)) s) = frames s @ [bm]
        \<and> canvasRef (step P (ImageDecoded j (Some bm)) s) = canvasRef s)
   \<and> (canvasRef s = Some c \<longrightarrow> painted (step P AnimationFrame s) = painted s @ frames s)
   \<and> (canvasRef s = Some c \<and> j < length (decoding s) \<longrightarrow>
        painted (run P [Close, ImageDecoded j (Some bm), AnimationFrame] s)
          = painted s @ frames s @ [bm])
   \<and> (wsRef s = Some ws \<and> readyState ws = OPEN \<longrightarrow>
        wsRef (step P Unmount s) = Some (ws\<lparr>readyState := CLOSING\<rparr>))
   \<and> canvasRef (step P Unmount s) = None
   \<and> (canvasRef s = None \<longrightarrow> painted (run P es s) = painted s)"
proof -
  have a: "systemStatus (step P Close s) = (if mounted s then ''Disconnected'' else systemStatus s)
     \<and> reading (step P Close s) = reading s \<and> decoding (step P Close s) = decoding s
     \<and> frames (step P Close s) = frames s \<and> canvasRef (step P Close s) = canvasRef s
     \<and> painted (step P Close s) = painted s \<and> alerts (step P Close s) = alerts s
     \<and> mounted (step P Close s) = mounted s"
    by (simp only: close_fields)
  have b: "step P (Message (Blob bytes)) s = s\<lparr>reading := reading s @ [bytes]\<rparr>"
    by simp
  have c: "alerts (step P (BufferRead i) (step P Close s)) = alerts (step P (BufferRead i) s)
     \<and> decoding (step P (BufferRead i) (step P Close s)) = decoding (step P (BufferRead i) s)
     \<and> unhandled (step P (BufferRead i) (step P Close s)) = unhandled (step P (BufferRead i) s)
     \<and> frames (step P (BufferRead i) (step P Close s)) = frames (step P (BufferRead i) s)
     \<and> canvasRef (step P (BufferRead i) (step P Close s)) = canvasRef (step P (BufferRead i) s)"
    using buffer_after_close [of P i s] by blast
  have d: "i < length (reading s) \<and> demux P (reading s ! i) = Inr (payload, img)
        \<and> snd (ingest P payload (s\<lparr>reading := take_out i (reading s)\<rparr>)) = None
      \<longrightarrow> decoding (step P (BufferRead i) s) = decoding s @ [img]"
    using buffer_decodes [of i s P payload img] by blast
  have e: "j < length (decoding s) \<longrightarrow>
        frames (step P (ImageDecoded j (Some bm)) s) = frames s @ [bm]
        \<and> canvasRef (step P (ImageDecoded j (Some bm)) s) = canvasRef s"
    using bitmap_queued [of j s P bm] by blast
  have f: "canvasRef s = Some c \<longrightarrow> painted (step P AnimationFrame s) = painted s @ frames s"
    using animation_frame_paints [of s c P] by blast
  have g: "canvasRef s = Some c \<and> j < length (decoding s) \<longrightarrow>
        painted (run P [Close, ImageDecoded j (Some bm), AnimationFrame] s)
          = painted s @ frames s @ [bm]"
    using decode_after_close_painted [of s c j P bm] by blast
  have h: "wsRef s = Some ws \<and> readyState ws = OPEN \<longrightarrow>
        wsRef (step P Unmount s) = Some (ws\<lparr>readyState := CLOSING\<rparr>)"
    by (simp add: unmount_def)
  have k: "canvasRef (step P Unmount s) = None"
    by (simp add: unmount_def)
  have l: "canvasRef s = None \<longrightarrow> painted (run P es s) = painted s"
    by (simp add: run_unmounted)
  from a b c d e f g h k l show ?thesis
    by (simp only:)
qed

theorem close_cancels_nothing_witness:
  "systemStatus (step example_platform Close fire_state) = ''Disconnected''
   \<and> decoding (step example_platform (BufferRead 0)
        (step example_platform Close (init\<lparr>reading := [fire_frame]\<rparr>))) = [jpeg]
   \<and> frames (step example_platform (ImageDecoded 0 (Some bitmap640))
        (fire_state\<lparr>systemStatus := ''Disconnected'', decoding := [jpeg]\<rparr>)) = [bitmap640]
   \<and> painted (step example_platform AnimationFrame (fire_state\<lparr>frames := [bitmap640]\<rparr>))
       = [bitmap640]
   \<and> painted (run example_platform [Close, ImageDecoded 0 (Some bitmap640), AnimationFrame]
                 (fire_state\<lparr>decoding := [jpeg]\<rparr>)) = [bitmap640]
   \<and> wsRef (step example_platform Unmount fire_state) = Some \<lparr>readyState = CLOSING, sent = []\<rparr>
   \<and> painted (run example_platform [ImageDecoded 0 (Some bitmap640), AnimationFrame]
                 (step example_platform Unmount (fire_state\<lparr>decoding := [jpeg]\<rparr>))) = []"
proof -
  let ?c = "\<lparr>canvas_width = 300, canvas_height = 150\<rparr>"
  let ?ws = "\<lparr>readyState = OPEN, sent = []\<rparr>"
  let ?arrived = "init\<lparr>reading := [fire_frame]\<rparr>"
  let ?late = "fire_state\<lparr>systemStatus := ''Disconnected'', decoding := [jpeg]\<rparr>"
  let ?requested = "fire_state\<lparr>frames := [bitmap640]\<rparr>"
  let ?waiting = "fire_state\<lparr>decoding := [jpeg]\<rparr>"
  let ?gone = "step example_platform Unmount ?waiting"
  have "mounted fire_state"
    by (simp add: fire_state_def init_def)
  with close_cancels_nothing [of example_platform fire_state]
  have one: "systemStatus (step example_platform Close fire_state) = ''Disconnected''"
    by simp
  have "0 < length (reading ?arrived)"
    and "demux example_platform (reading ?arrived ! 0) = Inr (fire_payload, jpeg)"
    and "snd (ingest example_platform fire_payload
           (?arrived\<lparr>reading := take_out 0 (reading ?arrived)\<rparr>)) = None"
    by (simp_all add: demux_fire_frame ingest_fire init_fields)
  with close_cancels_nothing
         [where P = example_platform and s = ?arrived and i = 0 and payload = fire_payload
            and img = jpeg]
  have "decoding (step example_platform (BufferRead 0) (step example_platform Close ?arrived))
          = decoding (step example_platform (BufferRead 0) ?arrived)"
    and "decoding (step example_platform (BufferRead 0) ?arrived) = decoding ?arrived @ [jpeg]"
    by blast+
  then have two: "decoding (step example_platform (BufferRead 0)
                    (step example_platform Close ?arrived)) = [jpeg]"
    by (simp add: init_fields)
  have "0 < length (decoding ?late)"
    by simp
  with close_cancels_nothing
         [where P = example_platform and s = ?late and j = 0 and bm = bitmap640]
  have "frames (step example_platform (ImageDecoded 0 (Some bitmap640)) ?late)
          = frames ?late @ [bitmap640]"
    by blast
  then have three: "frames (step example_platform (ImageDecoded 0 (Some bitmap640)) ?late)
                      = [bitmap640]"
    by (simp add: fire_state_def init_def)
  have "canvasRef ?requested = Some ?c"
    by (simp add: fire_state_def init_def)
  with close_cancels_nothing [where P = example_platform and s = ?requested and c = ?c]
  have "painted (step example_platform AnimationFrame ?requested)
          = painted ?requested @ frames ?requested"
    by blast
  then have four: "painted (step example_platform AnimationFrame ?requested) = [bitmap640]"
    by (simp add: fire_state_def init_def)
  have "canvasRef ?waiting = Some ?c" and "0 < length (decoding ?waiting)"
    by (simp_all add: fire_state_def init_def)
  with close_cancels_nothing
         [where P = example_platform and s = ?waiting and c = ?c and j = 0 and bm = bitmap640]
  have "painted (run example_platform [Close, ImageDecoded 0 (Some bitmap640), AnimationFrame]
                   ?waiting) = painted ?waiting @ frames ?waiting @ [bitmap640]"
    by blast
  then have five: "painted (run example_platform
                     [Close, ImageDecoded 0 (Some bitmap640), AnimationFrame] ?waiting)
                   = [bitmap640]"
    by (simp add: fire_state_def init_def)
  have "wsRef fire_state = Some ?ws" and "readyState ?ws = OPEN"
    by (simp_all add: fire_state_def)
  with close_cancels_nothing [where P = example_platform and s = fire_state and ws = ?ws]
  have "wsRef (step example_platform Unmount fire_state) = Some (?ws\<lparr>readyState := CLOSING\<rparr>)"
    by blast
  then have six: "wsRef (step example_platform Unmount fire_state)
                    = Some \<lparr>readyState = CLOSING, sent = []\<rparr>"
    by simp
  have gone: "canvasRef ?gone = None" "painted ?gone = []"
    by (simp_all add: unmount_def fire_state_def init_def)
  with close_cancels_nothing
         [where P = example_platform and s = ?gone
            and es = "[ImageDecoded 0 (Some bitmap640), AnimationFrame]"]
  have "painted (run example_platform [ImageDecoded 0 (Some bitmap640), AnimationFrame] ?gone)
          = painted ?gone"
    by blast
  with gone(2) have seven: "painted (run example_platform
                     [ImageDecoded 0 (Some bitmap640), AnimationFrame] ?gone) = []"
    by simp
  from one two three four five six seven show ?thesis
    by (simp only:)
qed

text \<open>
  The claim as the specification has it fails on \<open>close_trace\<close>: a frame is read while
  the socket is open, the socket closes while the image is being decoded, and the bitmap
  that arrives after that is painted.
\<close>

theorem paint_after_close_counterexample:
  "systemStatus (run example_platform close_trace init) = ''Disconnected''
   \<and> decoding (run example_platform close_trace init) = [jpeg]
   \<and> painted (run example_platform close_trace init) = []
   \<and> run example_platform (close_trace @ [ImageDecoded 0 (Some bitmap640), AnimationFrame]) init
       = init\<lparr>alerts := [fire_alert], systemStatus := ''Disconnected'',
               wsRef := Some \<lparr>readyState = CLOSED, sent = []\<rparr>,
               canvasRef := Some \<lparr>canvas_width = 640, canvas_height = 480\<rparr>,
               painted := [bitmap640]\<rparr>"
proof -
  let ?open = "init\<lparr>systemStatus := ''Monitoring Active'',
                    wsRef := Some \<lparr>readyState = OPEN, sent = []\<rparr>\<rparr>"
  let ?closed = "init\<lparr>alerts := [fire_alert], systemStatus := ''Disconnected'',
                      wsRef := Some \<lparr>readyState = CLOSED, sent = []\<rparr>, decoding := [jpeg]\<rparr>"
  have "run example_platform [Open, Message (Blob fire_frame), BufferRead 0] init
          = on_buffer example_platform fire_frame ?open"
    by (simp add: run_def opened received init_fields del: step.simps)
  also have "\<dots> = ?open\<lparr>alerts := [fire_alert], decoding := decoding ?open @ [jpeg]\<rparr>"
    using on_buffer_Inr [OF demux_fire_frame ingest_fire, of ?open]
    by (simp add: init_fields)
  finally have "run example_platform ([Open, Message (Blob fire_frame), BufferRead 0] @ [Close]) init
      = step example_platform Close (?open\<lparr>alerts := [fire_alert], decoding := decoding ?open @ [jpeg]\<rparr>)"
    by (simp only: run_append) (simp add: run_def)
  also have "\<dots> = ?closed"
    by (simp add: init_def onclose_def setSystemStatus_def set_readyState_def)
  finally have closed: "run example_platform close_trace init = ?closed"
    by (simp add: close_trace_def)
  have "run example_platform [ImageDecoded 0 (Some bitmap640), AnimationFrame] ?closed
      = init\<lparr>alerts := [fire_alert], systemStatus := ''Disconnected'',
               wsRef := Some \<lparr>readyState = CLOSED, sent = []\<rparr>,
               canvasRef := Some \<lparr>canvas_width = 640, canvas_height = 480\<rparr>,
               painted := [bitmap640]\<rparr>"
    by (simp add: run_def init_def take_out_def animation_frame_def paint_def bitmap640_def)
  with closed show ?thesis
    by (simp add: run_append init_def)
qed

end
